theory Spec2Isabelle
  imports Complex_Main "HOL-Library.Word" "HOL-Library.Signed_Division" "HOL-Library.Log_Nat"
begin

section \<open>Numbers and vectors\<close>

text \<open>
  The Go sources compute with \<^verbatim>\<open>float32\<close> and \<^verbatim>\<open>float64\<close>.  A finite float denotes a
  real number, and the fields of the embedding hold that number: a field is a finite
  float, never an infinity or a NaN.  The collision test decides on float32 sums, and
  there the sum is rounded as float32 addition rounds (\<open>float32_add\<close> below).  In the
  other functions arithmetic is exact: what is stated about them is their control flow,
  their comparisons and their assignments, on the values those functions compute.

  Go's \<^verbatim>\<open>int\<close> is a 64-bit two's complement integer in the game state (scores, window
  size); \<^verbatim>\<open>/\<close> truncates towards zero.  The loop counters of the particle pool only
  ever count up to a bound that is itself an \<^verbatim>\<open>int\<close>, so they cannot wrap and are
  modelled by \<open>int\<close>.
\<close>

type_synonym float32 = real
type_synonym float64 = real
type_synonym go_int = "64 word"

definition int_quo :: "go_int \<Rightarrow> go_int \<Rightarrow> go_int" where
  "int_quo a b = word_of_int (sint a sdiv sint b)"

definition float32_of_int :: "go_int \<Rightarrow> float32" where
  "float32_of_int n = real_of_int (sint n)"

text \<open>
  The addition of float32 (IEEE 754 binary32, round to nearest, ties to even).  A finite
  float32 is a multiple \<open>k / 2 ^ 149\<close> of the smallest subnormal whose integer \<open>k\<close> has
  at most 24 significant bits and is below \<open>2 ^ 277\<close> in size.  The exact sum \<open>x\<close> of two
  floats is rounded to the nearest multiple of the quantum of its binade, \<open>2 ^ shift32 x\<close>
  in units of \<open>2 ^ -149\<close>, a tie going to the even multiple; a result of size \<open>2 ^ 128\<close>
  is an infinity.  The sum of two finite floats is never a NaN.
\<close>

datatype rounded = NegInf | Fin float32 | PosInf

definition roundToEven :: "real \<Rightarrow> int" where
  "roundToEven y =
     (let f = \<lfloor>y\<rfloor>
      in if y - of_int f < 1 / 2 then f
         else if 1 / 2 < y - of_int f then f + 1
         else if even f then f else f + 1)"

definition two149 :: real where
  "two149 = 2 ^ 149"

definition two277 :: real where
  "two277 = 2 ^ 277"

definition shift32 :: "real \<Rightarrow> nat" where
  "shift32 x = nat (bitlen \<lfloor>\<bar>x\<bar> * two149\<rfloor> - 24)"

definition round32 :: "real \<Rightarrow> rounded" where
  "round32 x =
     (let q = 2 ^ shift32 x;
          r = of_int (roundToEven (x * two149 / q)) * q
      in if two277 \<le> r then PosInf
         else if r \<le> - two277 then NegInf
         else Fin (r / two149))"

definition float32_add :: "float32 \<Rightarrow> float32 \<Rightarrow> rounded" where
  "float32_add a b = round32 (a + b)"

text \<open>\<^verbatim>\<open>s >= b\<close> for a sum \<open>s\<close> and a finite float \<open>b\<close>.\<close>

definition sum_ge :: "rounded \<Rightarrow> float32 \<Rightarrow> bool" where
  "sum_ge s b = (case s of NegInf \<Rightarrow> False | Fin r \<Rightarrow> r \<ge> b | PosInf \<Rightarrow> True)"

text \<open>The real numbers that are finite float32 values.\<close>

definition is_float32 :: "real \<Rightarrow> bool" where
  "is_float32 x =
     (of_int \<lfloor>x * two149\<rfloor> = x * two149 \<and> \<bar>x * two149\<bar> < two277 \<and>
      2 ^ shift32 x dvd \<lfloor>x * two149\<rfloor>)"

text \<open>\<^verbatim>\<open>mgl.Vec2\<close>, \<^verbatim>\<open>mgl.Vec3\<close>, \<^verbatim>\<open>mgl.Vec4\<close>: arrays of two, three and four floats.\<close>

type_synonym Vec2 = "float32 \<times> float32"
type_synonym Vec3 = "float32 \<times> float32 \<times> float32"
type_synonym Vec4 = "float32 \<times> float32 \<times> float32 \<times> float32"

definition X :: "Vec2 \<Rightarrow> float32" where
  "X v = fst v"

definition Y :: "Vec2 \<Rightarrow> float32" where
  "Y v = snd v"

definition Add :: "Vec2 \<Rightarrow> Vec2 \<Rightarrow> Vec2" where
  "Add v w = (X v + X w, Y v + Y w)"

definition Sub :: "Vec2 \<Rightarrow> Vec2 \<Rightarrow> Vec2" where
  "Sub v w = (X v - X w, Y v - Y w)"

definition Mul :: "Vec2 \<Rightarrow> float32 \<Rightarrow> Vec2" where
  "Mul v c = (X v * c, Y v * c)"

text \<open>
  A slice access \<^verbatim>\<open>s[i]\<close> panics in Go when \<^verbatim>\<open>i\<close> is negative or not below the length
  of the slice.  The panic is the value \<open>Inl IndexOutOfRange\<close> of a result.
\<close>

datatype fault = IndexOutOfRange

section \<open>Particles\<close>

text \<open>
  \<^verbatim>\<open>Particle\<close>.  Its fields \<^verbatim>\<open>position\<close>, \<^verbatim>\<open>velocity\<close> and \<^verbatim>\<open>color\<close> share their names
  with the fields of a game object; below they are written \<open>Particle.position\<close>,
  \<open>Particle.velocity\<close> and \<open>Particle.color\<close>.
\<close>

record Particle =
  position :: Vec2
  velocity :: Vec2
  color :: Vec4
  life :: float64

definition newParticle :: "Vec2 \<Rightarrow> Vec2 \<Rightarrow> Vec4 \<Rightarrow> float64 \<Rightarrow> Particle" where
  "newParticle pos vel col lf = \<lparr>position = pos, velocity = vel, color = col, life = lf\<rparr>"

section \<open>The text renderer\<close>

text \<open>
  \<^verbatim>\<open>Character\<close> and \<^verbatim>\<open>TextRenderer\<close>.  A \<^verbatim>\<open>rune\<close> is Go's \<^verbatim>\<open>int32\<close>.  The shader and the
  buffer handles of the renderer are left out; \<open>chars\<close> is the slice of glyphs.
\<close>

type_synonym rune = "32 word"

record Character =
  textureID :: "32 word"
  width :: int
  height :: int
  advance :: int
  bearingH :: int
  bearingV :: int

record TextRenderer =
  chars :: "Character list"

definition newTextRenderer :: TextRenderer where
  "newTextRenderer = \<lparr>chars = []\<rparr>"

text \<open>
  \<^verbatim>\<open>LoadFont\<close> runs \<^verbatim>\<open>for ch := rune(32); ch <= rune(127); ch++\<close> and appends one
  \<^verbatim>\<open>Character\<close> per code point.  What the font library and the graphics library put
  into that \<^verbatim>\<open>Character\<close> is the parameter \<open>glyph\<close>.
\<close>

definition LoadFont :: "(rune \<Rightarrow> Character) \<Rightarrow> TextRenderer \<Rightarrow> TextRenderer" where
  "LoadFont glyph t = t\<lparr>chars := chars t @ map (\<lambda>ch. glyph (word_of_int ch)) [32..127]\<rparr>"

text \<open>The lookup \<^verbatim>\<open>t.chars[char-lowChar]\<close> with \<^verbatim>\<open>lowChar := rune(32)\<close>.\<close>

definition lowChar :: rune where
  "lowChar = 32"

definition lookupChar :: "TextRenderer \<Rightarrow> rune \<Rightarrow> fault + Character" where
  "lookupChar t char =
     (let i = sint (char - lowChar)
      in if 0 \<le> i \<and> i < int (length (chars t)) then Inr (chars t ! nat i)
         else Inl IndexOutOfRange)"

text \<open>
  One quad is drawn per character: the texture bound and the rectangle whose corners
  are the six vertices uploaded.  \<^verbatim>\<open>RenderText\<close> gets the runes of the formatted string
  (\<^verbatim>\<open>[]rune(fmt.Sprintf(text, argv...))\<close>) and returns the quads in drawing order with
  the final pen position.
\<close>

record Quad =
  texture :: "32 word"
  xPos :: float32
  yPos :: float32
  w :: float32
  h :: float32

fun RenderText ::
  "TextRenderer \<Rightarrow> float32 \<Rightarrow> float32 \<Rightarrow> float32 \<Rightarrow> rune list \<Rightarrow> fault + (Quad list \<times> float32)" where
  "RenderText t x y scale [] = Inr ([], x)"
| "RenderText t x y scale (char # indices) =
     (case lookupChar t char of
        Inl f \<Rightarrow> Inl f
      | Inr charRune \<Rightarrow>
          (let q = \<lparr>texture = textureID charRune,
                    xPos = x + real_of_int (bearingH charRune) * scale,
                    yPos = y - real_of_int (height charRune - bearingV charRune) * scale,
                    w = real_of_int (width charRune) * scale,
                    h = real_of_int (height charRune) * scale\<rparr>
           in case RenderText t (x + real_of_int (advance charRune div 64) * scale) y scale indices of
                Inl f \<Rightarrow> Inl f
              | Inr (qs, x') \<Rightarrow> Inr (q # qs, x')))"

text \<open>The range of code points the specification calls loaded: 32 to 127.\<close>

definition in_loaded_range :: "rune \<Rightarrow> bool" where
  "in_loaded_range char = (32 \<le> sint char \<and> sint char \<le> 127)"

section \<open>Game objects\<close>

text \<open>
  \<^verbatim>\<open>GameObject\<close> and \<^verbatim>\<open>BallObject\<close>.  The ball embeds a \<^verbatim>\<open>GameObject\<close>, which is a
  record extension here: every function on game objects applies to the ball too.
  The field \<^verbatim>\<open>size\<close> is called \<open>size_v\<close> because \<open>size\<close> is a constant of HOL.
\<close>

record GameObject =
  position :: Vec2
  size_v :: Vec2
  velocity :: Vec2
  color :: Vec3
  rotation :: float32

record BallObject = GameObject +
  isStuck :: bool
  radius :: float32

definition newGameObject :: "Vec2 \<Rightarrow> Vec2 \<Rightarrow> GameObject" where
  "newGameObject pos sz =
     \<lparr>position = pos, size_v = sz, velocity = (0, 0), color = (1, 1, 1), rotation = 0\<rparr>"

definition newBallObject :: "Vec2 \<Rightarrow> float32 \<Rightarrow> Vec2 \<Rightarrow> BallObject" where
  "newBallObject pos r vel =
     \<lparr>position = pos, size_v = (r * 2, r * 2), velocity = vel, color = (1, 1, 1),
      rotation = 0, isStuck = False, radius = r\<rparr>"

definition GameObject_Reset :: "Vec2 \<Rightarrow> GameObject \<Rightarrow> GameObject" where
  "GameObject_Reset pos obj = obj\<lparr>position := pos\<rparr>"

definition CheckCollision :: "'a GameObject_scheme \<Rightarrow> 'b GameObject_scheme \<Rightarrow> bool" where
  "CheckCollision obj other =
     (let collisionX =
            (sum_ge (float32_add (X (position obj)) (X (size_v obj))) (X (position other)) \<and>
             sum_ge (float32_add (X (position other)) (X (size_v other))) (X (position obj)));
          collisionY =
            (sum_ge (float32_add (Y (position obj)) (Y (size_v obj))) (Y (position other)) \<and>
             sum_ge (float32_add (Y (position other)) (Y (size_v other))) (Y (position obj)))
      in collisionX \<and> collisionY)"

text \<open>
  \<^verbatim>\<open>BallObject.Move\<close> mutates the ball and returns its position; the model returns the
  updated ball, whose \<open>position\<close> is that return value.  \<^verbatim>\<open>windowWidth\<close> is not read
  by the source either.
\<close>

definition Move :: "float64 \<Rightarrow> go_int \<Rightarrow> go_int \<Rightarrow> BallObject \<Rightarrow> BallObject" where
  "Move deltaTime windowWidth windowHeight b =
     (if \<not> isStuck b then
        let b1 = b\<lparr>position := Add (position b) (Mul (velocity b) deltaTime)\<rparr>
        in if Y (position b1) \<le> 0 then
             b1\<lparr>velocity := (X (velocity b1), - Y (velocity b1)),
                position := (X (position b1), 0)\<rparr>
           else if Y (position b1) + Y (size_v b1) \<ge> float32_of_int windowHeight then
             b1\<lparr>velocity := (X (velocity b1), - Y (velocity b1)),
                position := (X (position b1), float32_of_int windowHeight - Y (size_v b1))\<rparr>
           else b1
      else b)"

definition BallObject_Reset :: "Vec2 \<Rightarrow> Vec2 \<Rightarrow> BallObject \<Rightarrow> BallObject" where
  "BallObject_Reset pos vel b = b\<lparr>position := pos, velocity := vel\<rparr>"

text \<open>
  The words of the specification for the collision test: the extent of a box on an axis
  is the closed interval from its position to its position plus its size, and a box is
  well formed when its size is not negative.
\<close>

definition extentX :: "'a GameObject_scheme \<Rightarrow> real set" where
  "extentX obj = {X (position obj) .. X (position obj) + X (size_v obj)}"

definition extentY :: "'a GameObject_scheme \<Rightarrow> real set" where
  "extentY obj = {Y (position obj) .. Y (position obj) + Y (size_v obj)}"

definition nonneg_size :: "'a GameObject_scheme \<Rightarrow> bool" where
  "nonneg_size obj = (0 \<le> X (size_v obj) \<and> 0 \<le> Y (size_v obj))"

text \<open>An object whose position and size are finite float32 numbers.\<close>

definition float32_box :: "'a GameObject_scheme \<Rightarrow> bool" where
  "float32_box obj =
     (is_float32 (X (position obj)) \<and> is_float32 (Y (position obj)) \<and>
      is_float32 (X (size_v obj)) \<and> is_float32 (Y (size_v obj)))"

text \<open>The position \<^verbatim>\<open>Move\<close> tests against the walls: the integrated one.\<close>

definition integrated :: "float64 \<Rightarrow> BallObject \<Rightarrow> Vec2" where
  "integrated deltaTime b = Add (position b) (Mul (velocity b) deltaTime)"

section \<open>The particle generator\<close>

text \<open>
  The pool of particles.  Every access \<^verbatim>\<open>pg.particles[i]\<close> is checked against the length
  of the slice, as the Go runtime does.  The fields \<^verbatim>\<open>shader\<close> and \<^verbatim>\<open>quadVao\<close> are
  handles of the graphics library and are left out.
\<close>

record ParticleGenerator =
  particles :: "Particle list"
  amount :: int

text \<open>\<^verbatim>\<open>Init\<close> appends \<^verbatim>\<open>amount\<close> default particles (none for an amount below one).\<close>

definition Init :: "ParticleGenerator \<Rightarrow> ParticleGenerator" where
  "Init pg = pg\<lparr>particles := particles pg @
       replicate (nat (amount pg)) (newParticle (0, 0) (0, 0) (1, 1, 1, 1) 0)\<rparr>"

definition newParticleGenerator :: "int \<Rightarrow> ParticleGenerator" where
  "newParticleGenerator n = Init \<lparr>particles = [], amount = n\<rparr>"

text \<open>
  The two search loops of \<^verbatim>\<open>firstUnusedParticle\<close> have the same body and differ in their
  bounds: \<open>scan ps i hi\<close> is \<^verbatim>\<open>for ; i < hi; i++ { if ps[i].life <= 0.0 { return i } }\<close>,
  with \<open>Some i\<close> for the return inside the loop and \<open>None\<close> when the loop runs out.
\<close>

function scan :: "Particle list \<Rightarrow> int \<Rightarrow> int \<Rightarrow> fault + int option" where
  "scan ps i hi =
     (if i < hi then
        if 0 \<le> i \<and> i < int (length ps) then
          if life (ps ! nat i) \<le> 0 then Inr (Some i) else scan ps (i + 1) hi
        else Inl IndexOutOfRange
      else Inr None)"
  by pat_completeness auto
termination
  by (relation "measure (\<lambda>(ps, i, hi). nat (hi - i))") auto

declare scan.simps [simp del]

text \<open>
  \<^verbatim>\<open>firstUnusedParticle\<close> reads and writes the package variable \<^verbatim>\<open>lastUsedParticle\<close>: the
  model takes its value and returns the index found together with the new value.
\<close>

definition firstUnusedParticle :: "ParticleGenerator \<Rightarrow> int \<Rightarrow> fault + (int \<times> int)" where
  "firstUnusedParticle pg lastUsed =
     (case scan (particles pg) lastUsed (amount pg) of
        Inl f \<Rightarrow> Inl f
      | Inr (Some i) \<Rightarrow> Inr (i, i)
      | Inr None \<Rightarrow>
          (case scan (particles pg) 0 lastUsed of
             Inl f \<Rightarrow> Inl f
           | Inr (Some i) \<Rightarrow> Inr (i, i)
           | Inr None \<Rightarrow> Inr (0, 0)))"

text \<open>
  \<^verbatim>\<open>respawnParticle\<close> draws twice from \<^verbatim>\<open>rand.Int31n(50)\<close>; the two draws are the
  arguments \<open>r1\<close> and \<open>r2\<close>.  The library returns a number from 0 to 49.
\<close>

definition respawnParticle ::
  "int \<Rightarrow> int \<Rightarrow> Particle \<Rightarrow> 'a GameObject_scheme \<Rightarrow> Vec2 \<Rightarrow> Particle" where
  "respawnParticle r1 r2 particle object offset =
     (let random = real_of_int r1 / 100 / 10;
          randomColor = real_of_int r2 / 100
      in particle\<lparr>Particle.position := Add (Add (position object) (random, random)) offset,
                   Particle.color := (randomColor, randomColor, randomColor, 1),
                   life := 1,
                   Particle.velocity := Mul (velocity object) (1 / 10)\<rparr>)"

text \<open>
  The first loop of \<^verbatim>\<open>Update\<close> (\<^verbatim>\<open>for i := 0; i < newParticles; i++\<close>), from counter \<open>i\<close>
  on; \<open>rnd i\<close> are the two random draws of iteration \<open>i\<close>.
\<close>

function spawn_loop ::
  "(int \<Rightarrow> int \<times> int) \<Rightarrow> 'a GameObject_scheme \<Rightarrow> Vec2 \<Rightarrow> int \<Rightarrow> int \<Rightarrow>
   ParticleGenerator \<Rightarrow> int \<Rightarrow> fault + (ParticleGenerator \<times> int)" where
  "spawn_loop rnd object offset i newParticles pg lastUsed =
     (if i < newParticles then
        case firstUnusedParticle pg lastUsed of
          Inl f \<Rightarrow> Inl f
        | Inr (unusedParticle, lastUsed') \<Rightarrow>
            if 0 \<le> unusedParticle \<and> unusedParticle < int (length (particles pg)) then
              spawn_loop rnd object offset (i + 1) newParticles
                (pg\<lparr>particles := (particles pg)[nat unusedParticle :=
                     respawnParticle (fst (rnd i)) (snd (rnd i))
                       (particles pg ! nat unusedParticle) object offset]\<rparr>)
                lastUsed'
            else Inl IndexOutOfRange
      else Inr (pg, lastUsed))"
  by pat_completeness auto
termination
  by (relation "measure (\<lambda>(rnd, object, offset, i, n, pg, lastUsed). nat (n - i))") auto

declare spawn_loop.simps [simp del]

text \<open>The body of the second loop of \<^verbatim>\<open>Update\<close> on one particle, and the loop.\<close>

definition age :: "float64 \<Rightarrow> Particle \<Rightarrow> Particle" where
  "age deltaTime p =
     (let p1 = p\<lparr>life := life p - deltaTime\<rparr>
      in if life p1 > 0 then
           (case Particle.color p1 of (r, g, b, a) \<Rightarrow>
              p1\<lparr>Particle.position :=
                    Sub (Particle.position p1) (Mul (Particle.velocity p1) deltaTime),
                  Particle.color := (r, g, b, a - deltaTime * (5 / 2))\<rparr>)
         else p1)"

function age_loop :: "float64 \<Rightarrow> int \<Rightarrow> ParticleGenerator \<Rightarrow> fault + ParticleGenerator" where
  "age_loop deltaTime i pg =
     (if i < amount pg then
        if 0 \<le> i \<and> i < int (length (particles pg)) then
          age_loop deltaTime (i + 1)
            (pg\<lparr>particles := (particles pg)[nat i := age deltaTime (particles pg ! nat i)]\<rparr>)
        else Inl IndexOutOfRange
      else Inr pg)"
  by pat_completeness auto
termination
  by (relation "measure (\<lambda>(deltaTime, i, pg). nat (amount pg - i))") auto

declare age_loop.simps [simp del]

definition ParticleGenerator_Update ::
  "float64 \<Rightarrow> 'a GameObject_scheme \<Rightarrow> int \<Rightarrow> Vec2 \<Rightarrow> (int \<Rightarrow> int \<times> int) \<Rightarrow>
   ParticleGenerator \<Rightarrow> int \<Rightarrow> fault + (ParticleGenerator \<times> int)" where
  "ParticleGenerator_Update deltaTime object newParticles offset rnd pg lastUsed =
     (case spawn_loop rnd object offset 0 newParticles pg lastUsed of
        Inl f \<Rightarrow> Inl f
      | Inr (pg1, lastUsed1) \<Rightarrow>
          (case age_loop deltaTime 0 pg1 of
             Inl f \<Rightarrow> Inl f
           | Inr pg2 \<Rightarrow> Inr (pg2, lastUsed1)))"

section \<open>The game\<close>

datatype GameState = gameActive | gameMenu | gameWin

definition maxScore :: go_int where
  "maxScore = 10"

definition paddleSize :: Vec2 where
  "paddleSize = (20, 100)"

definition paddleVelocity :: float32 where
  "paddleVelocity = 500"

definition initialBallVelocity :: Vec2 where
  "initialBallVelocity = (450, 300)"

text \<open>
  The package variables that change while the game runs: \<^verbatim>\<open>shakeTime\<close> of the game and
  \<^verbatim>\<open>lastUsedParticle\<close> of the particle generator.
\<close>

record Globals =
  shakeTime :: float64
  lastUsedParticle :: int

text \<open>
  \<^verbatim>\<open>glfw.Key\<close> is an integer; the five keys the game reads have the values of the GLFW
  library.  \<^verbatim>\<open>g.keys[k]\<close> on a Go map is \<^verbatim>\<open>false\<close> for a key that is not in the map.
\<close>

type_synonym Key = int

definition KeyEnter :: Key where
  "KeyEnter = 257"

definition KeyW :: Key where
  "KeyW = 87"

definition KeyS :: Key where
  "KeyS = 83"

definition KeyUp :: Key where
  "KeyUp = 265"

definition KeyDown :: Key where
  "KeyDown = 264"

text \<open>Of the post-processor the game only touches the flag \<^verbatim>\<open>shake\<close>.\<close>

record PostProcessor =
  shake :: bool
  chaos :: bool
  confuse :: bool

text \<open>
  \<^verbatim>\<open>Game\<close>, after \<^verbatim>\<open>Init\<close>: the objects behind its pointers are fields.  The sprite
  renderer, the resource manager and the text renderer hold graphics handles only and
  are left out.  \<^verbatim>\<open>processedKeys\<close> is an array of 1024 flags.
\<close>

record Game =
  state :: GameState
  keys :: "Key \<rightharpoonup> bool"
  processedKeys :: "bool list"
  width :: go_int
  height :: go_int
  particles :: ParticleGenerator
  effects :: PostProcessor
  paddle1 :: GameObject
  paddle2 :: GameObject
  ball :: BallObject
  paddle1Score :: go_int
  paddle2Score :: go_int

definition pressed :: "Game \<Rightarrow> Key \<Rightarrow> bool" where
  "pressed g k = (case keys g k of Some b \<Rightarrow> b | None \<Rightarrow> False)"

text \<open>\<^verbatim>\<open>newGame(width, height)\<close> followed by \<^verbatim>\<open>Init()\<close>.\<close>

definition newGame_Init :: "go_int \<Rightarrow> go_int \<Rightarrow> Game" where
  "newGame_Init wd ht =
     \<lparr>state = gameMenu,
      keys = Map.empty,
      processedKeys = replicate 1024 False,
      width = wd,
      height = ht,
      particles = newParticleGenerator 50,
      effects = \<lparr>shake = False, chaos = False, confuse = False\<rparr>,
      paddle1 = newGameObject (10, float32_of_int (int_quo ht 2) - Y paddleSize / 2) paddleSize,
      paddle2 = newGameObject
        (float32_of_int wd - X paddleSize - 10, float32_of_int (int_quo ht 2) - Y paddleSize / 2)
        paddleSize,
      ball = newBallObject
        (float32_of_int (int_quo wd 2) - 10, float32_of_int (int_quo ht 2) - 10) 10
        initialBallVelocity,
      paddle1Score = 0,
      paddle2Score = 0\<rparr>"

definition Game_Reset :: "Game \<Rightarrow> Game" where
  "Game_Reset g =
     g\<lparr>paddle1Score := 0,
       paddle2Score := 0,
       paddle1 := GameObject_Reset
         (10, float32_of_int (int_quo (height g) 2) - Y paddleSize / 2) (paddle1 g),
       paddle2 := GameObject_Reset
         (float32_of_int (width g) - X paddleSize - 10,
          float32_of_int (int_quo (height g) 2) - Y paddleSize / 2) (paddle2 g),
       ball := BallObject_Reset
         (float32_of_int (int_quo (width g) 2), float32_of_int (int_quo (height g) 2))
         initialBallVelocity (ball g)\<rparr>"

text \<open>The four paddle moves of the active state, in the order of the source.\<close>

definition movePaddles :: "float64 \<Rightarrow> Game \<Rightarrow> Game" where
  "movePaddles deltaTime g =
     (let deltaSpace = paddleVelocity * deltaTime;
          up = (\<lambda>p. p\<lparr>position := (X (position p), Y (position p) - deltaSpace)\<rparr>);
          down = (\<lambda>p. p\<lparr>position := (X (position p), Y (position p) + deltaSpace)\<rparr>);
          g1 = (if pressed g KeyW \<and> Y (position (paddle1 g)) \<ge> 0
                then g\<lparr>paddle1 := up (paddle1 g)\<rparr> else g);
          g2 = (if pressed g1 KeyS \<and>
                   Y (position (paddle1 g1)) \<le> float32_of_int (height g1) - Y (size_v (paddle1 g1))
                then g1\<lparr>paddle1 := down (paddle1 g1)\<rparr> else g1);
          g3 = (if pressed g2 KeyUp \<and> Y (position (paddle2 g2)) \<ge> 0
                then g2\<lparr>paddle2 := up (paddle2 g2)\<rparr> else g2);
          g4 = (if pressed g3 KeyDown \<and>
                   Y (position (paddle2 g3)) \<le> float32_of_int (height g3) - Y (size_v (paddle2 g3))
                then g3\<lparr>paddle2 := down (paddle2 g3)\<rparr> else g3)
      in g4)"

definition ProcessInput :: "float64 \<Rightarrow> Game \<Rightarrow> Game" where
  "ProcessInput deltaTime g =
     (case state g of
        gameMenu \<Rightarrow>
          if pressed g KeyEnter then
            (Game_Reset g)\<lparr>state := gameActive,
                            processedKeys := (processedKeys g)[nat KeyEnter := True]\<rparr>
          else g
      | gameWin \<Rightarrow>
          if pressed g KeyEnter then
            g\<lparr>state := gameMenu, processedKeys := (processedKeys g)[nat KeyEnter := True]\<rparr>
          else g
      | gameActive \<Rightarrow> movePaddles deltaTime g)"

definition DoCollisions :: "Game \<times> Globals \<Rightarrow> Game \<times> Globals" where
  "DoCollisions = (\<lambda>(g, gl).
     if CheckCollision (ball g) (paddle1 g) \<or> CheckCollision (ball g) (paddle2 g) then
       (g\<lparr>effects := (effects g)\<lparr>shake := True\<rparr>,
          ball := (ball g)\<lparr>velocity := (- X (velocity (ball g)), Y (velocity (ball g)))\<rparr>\<rparr>,
        gl\<lparr>shakeTime := 1 / 10\<rparr>)
     else (g, gl))"

text \<open>The three last steps of \<^verbatim>\<open>Update\<close>, named after the comments of the source.\<close>

definition reduceShakeTime :: "float64 \<Rightarrow> Game \<times> Globals \<Rightarrow> Game \<times> Globals" where
  "reduceShakeTime deltaTime = (\<lambda>(g, gl).
     if shakeTime gl > 0 then
       let gl1 = gl\<lparr>shakeTime := shakeTime gl - deltaTime\<rparr>
       in if shakeTime gl1 \<le> 0 then (g\<lparr>effects := (effects g)\<lparr>shake := False\<rparr>\<rparr>, gl1)
          else (g, gl1)
     else (g, gl))"

definition checkLoss :: "Game \<Rightarrow> Game" where
  "checkLoss g =
     (if X (position (ball g)) \<le> 0 then
        g\<lparr>paddle2Score := paddle2Score g + 1,
          ball := BallObject_Reset
            (float32_of_int (int_quo (width g) 2), float32_of_int (int_quo (height g) 2))
            (Mul initialBallVelocity (- 1)) (ball g)\<rparr>
      else if X (position (ball g)) + X (size_v (ball g)) \<ge> float32_of_int (width g) then
        g\<lparr>paddle1Score := paddle1Score g + 1,
          ball := BallObject_Reset
            (float32_of_int (int_quo (width g) 2), float32_of_int (int_quo (height g) 2))
            initialBallVelocity (ball g)\<rparr>
      else g)"

definition checkWin :: "Game \<Rightarrow> Game" where
  "checkWin g =
     (if maxScore \<le>s paddle1Score g \<or> maxScore \<le>s paddle2Score g then g\<lparr>state := gameWin\<rparr>
      else g)"

text \<open>
  \<^verbatim>\<open>Game.Update\<close>.  \<open>rnd\<close> are the random draws of the particle spawned in this frame.
  \<open>beforeLossCheck\<close> is the state that reaches the comment \<^verbatim>\<open>// Check loss condition\<close>.
\<close>

definition beforeLossCheck ::
  "float64 \<Rightarrow> (int \<Rightarrow> int \<times> int) \<Rightarrow> Game \<times> Globals \<Rightarrow> fault + (Game \<times> Globals)" where
  "beforeLossCheck deltaTime rnd = (\<lambda>(g, gl).
     let g1 = g\<lparr>ball := Move deltaTime (width g) (height g) (ball g)\<rparr>;
         (g2, gl2) = DoCollisions (g1, gl)
     in case ParticleGenerator_Update deltaTime (ball g2) 1 (radius (ball g2), radius (ball g2))
               rnd (particles g2) (lastUsedParticle gl2) of
          Inl f \<Rightarrow> Inl f
        | Inr (pg, lastUsed) \<Rightarrow>
            Inr (reduceShakeTime deltaTime
                   (g2\<lparr>particles := pg\<rparr>, gl2\<lparr>lastUsedParticle := lastUsed\<rparr>)))"

definition Game_Update ::
  "float64 \<Rightarrow> (int \<Rightarrow> int \<times> int) \<Rightarrow> Game \<times> Globals \<Rightarrow> fault + (Game \<times> Globals)" where
  "Game_Update deltaTime rnd = (\<lambda>(g, gl).
     if state g = gameActive then
       case beforeLossCheck deltaTime rnd (g, gl) of
         Inl f \<Rightarrow> Inl f
       | Inr (g3, gl3) \<Rightarrow> Inr (checkWin (checkLoss g3), gl3)
     else Inr (g, gl))"

section \<open>Predicates of the specification\<close>

text \<open>
  A pool as \<^verbatim>\<open>Init\<close> builds it: \<^verbatim>\<open>amount\<close> is the number of particles of the slice.
\<close>

definition wf_pool :: "ParticleGenerator \<Rightarrow> bool" where
  "wf_pool pg = (amount pg = int (length (ParticleGenerator.particles pg)))"

text \<open>The number of dead slots (life not above 0) and of slots whose life is 1.\<close>

definition dead_slots :: "Particle list \<Rightarrow> nat" where
  "dead_slots ps = length (filter (\<lambda>p. life p \<le> 0) ps)"

definition fresh_slots :: "Particle list \<Rightarrow> nat" where
  "fresh_slots ps = length (filter (\<lambda>p. life p = 1) ps)"

text \<open>
  The values \<^verbatim>\<open>lastUsedParticle\<close> can take for a pool of \<open>n\<close> slots: it starts at 0, and
  every call of \<^verbatim>\<open>firstUnusedParticle\<close>, on whatever the \<open>n\<close> slots hold by then, stores a
  new value.
\<close>

inductive cursor_reachable :: "int \<Rightarrow> int \<Rightarrow> bool" where
  start: "cursor_reachable n 0"
| call: "cursor_reachable n c \<Longrightarrow> amount pg = n \<Longrightarrow> wf_pool pg \<Longrightarrow>
         firstUnusedParticle pg c = Inr (i, c') \<Longrightarrow> cursor_reachable n c'"

text \<open>
  A colour near white: every colour channel is at least one half, that is nearer to
  white (1) than to black (0).
\<close>

definition near_white :: "Vec4 \<Rightarrow> bool" where
  "near_white c = (case c of (r, g, b, a) \<Rightarrow> 1 / 2 \<le> r \<and> 1 / 2 \<le> g \<and> 1 / 2 \<le> b)"

text \<open>
  What the particle pool of the game and \<^verbatim>\<open>lastUsedParticle\<close> satisfy from \<^verbatim>\<open>Init\<close> on:
  the pool is as \<^verbatim>\<open>Init\<close> built it, it has a slot, and the cursor points into it.
\<close>

definition pool_ready :: "Game \<times> Globals \<Rightarrow> bool" where
  "pool_ready = (\<lambda>(g, gl). wf_pool (Game.particles g) \<and> 0 < amount (Game.particles g) \<and>
     0 \<le> lastUsedParticle gl \<and> lastUsedParticle gl < amount (Game.particles g))"

section \<open>Sample inputs\<close>

text \<open>
  Concrete inputs on which the theorems below are instantiated: a source of random
  draws that always gives 25 and 30, the ball of the 800 by 600 window as \<^verbatim>\<open>Init\<close>
  creates it, and pools of two slots, both free and both in use.
\<close>

definition sample_draws :: "int \<Rightarrow> int \<times> int" where
  "sample_draws i = (25, 30)"

definition sample_ball :: BallObject where
  "sample_ball = newBallObject (390, 290) 10 initialBallVelocity"

definition free_pool2 :: ParticleGenerator where
  "free_pool2 = newParticleGenerator 2"

definition full_pool2 :: ParticleGenerator where
  "full_pool2 =
     \<lparr>ParticleGenerator.particles =
        [newParticle (0, 0) (0, 0) (1, 1, 1, 1) (3 / 4),
         newParticle (0, 0) (0, 0) (1, 1, 1, 1) (1 / 2)],
      amount = 2\<rparr>"

text \<open>
  Game states of the 800 by 600 window.  \<open>sample_game\<close> is active, the right player has
  9 points and the ball is about to leave on the left.  \<open>won_game\<close> is a finished match
  with Enter held down.  \<open>menu_game\<close> is the menu after such a match, with the scores
  and a displaced paddle left over and Enter held down.
\<close>

definition sample_globals :: Globals where
  "sample_globals = \<lparr>shakeTime = 0, lastUsedParticle = 0\<rparr>"

definition sample_game :: Game where
  "sample_game = (newGame_Init 800 600)
     \<lparr>state := gameActive,
      ball := newBallObject (- 30, 290) 10 (- 450, - 300),
      paddle2Score := 9\<rparr>"

definition won_game :: Game where
  "won_game = (newGame_Init 800 600)
     \<lparr>state := gameWin, keys := [KeyEnter \<mapsto> True], paddle1Score := 4, paddle2Score := 10\<rparr>"

definition menu_game :: Game where
  "menu_game = (newGame_Init 800 600)
     \<lparr>keys := [KeyEnter \<mapsto> True],
      paddle1 := newGameObject (10, 37) paddleSize,
      paddle1Score := 4,
      paddle2Score := 10\<rparr>"

text \<open>
  A font for the text renderer: every glyph is 10 by 12 pixels with an advance of ten
  pixels (640 / 64), and its texture is numbered by its code point.
\<close>

definition sample_glyph :: "rune \<Rightarrow> Character" where
  "sample_glyph ch =
     \<lparr>textureID = ch, Character.width = 10, Character.height = 12, advance = 640,
      bearingH = 1, bearingV = 2\<rparr>"

section \<open>The search for a free slot\<close>

lemma scan_result:
  "0 \<le> i \<Longrightarrow> hi \<le> int (length ps) \<Longrightarrow>
   (\<exists>k. scan ps i hi = Inr (Some k) \<and> i \<le> k \<and> k < hi \<and> life (ps ! nat k) \<le> 0) \<or>
   (scan ps i hi = Inr None \<and> (\<forall>k. i \<le> k \<and> k < hi \<longrightarrow> 0 < life (ps ! nat k)))"
proof (induction ps i hi rule: scan.induct)
  case (1 ps i hi)
  show ?case
  proof (cases "i < hi")
    case False
    then show ?thesis by (simp add: scan.simps [of ps i hi])
  next
    case True
    with 1 have ib: "0 \<le> i \<and> i < int (length ps)" by simp
    show ?thesis
    proof (cases "life (ps ! nat i) \<le> 0")
      case True
      with \<open>i < hi\<close> ib show ?thesis by (simp add: scan.simps [of ps i hi])
    next
      case False
      with 1 True ib have IH:
        "(\<exists>k. scan ps (i + 1) hi = Inr (Some k) \<and> i + 1 \<le> k \<and> k < hi \<and> life (ps ! nat k) \<le> 0) \<or>
         (scan ps (i + 1) hi = Inr None \<and> (\<forall>k. i + 1 \<le> k \<and> k < hi \<longrightarrow> 0 < life (ps ! nat k)))"
        by simp
      have eq: "scan ps i hi = scan ps (i + 1) hi"
        using True ib False by (simp add: scan.simps [of ps i hi])
      from IH show ?thesis
      proof
        assume "\<exists>k. scan ps (i + 1) hi = Inr (Some k) \<and> i + 1 \<le> k \<and> k < hi \<and> life (ps ! nat k) \<le> 0"
        then show ?thesis using eq by auto
      next
        assume a: "scan ps (i + 1) hi = Inr None \<and> (\<forall>k. i + 1 \<le> k \<and> k < hi \<longrightarrow> 0 < life (ps ! nat k))"
        have "\<forall>k. i \<le> k \<and> k < hi \<longrightarrow> 0 < life (ps ! nat k)"
        proof (intro allI impI)
          fix k assume k: "i \<le> k \<and> k < hi"
          show "0 < life (ps ! nat k)"
          proof (cases "k = i")
            case True then show ?thesis using False by simp
          next
            case False then show ?thesis using a k by simp
          qed
        qed
        then show ?thesis using a eq by simp
      qed
    qed
  qed
qed

lemma firstUnusedParticle_result:
  assumes wf: "wf_pool pg" and c: "0 \<le> c" "c \<le> amount pg"
  shows "\<exists>i. firstUnusedParticle pg c = Inr (i, i) \<and> 0 \<le> i \<and>
     ((\<exists>k. 0 \<le> k \<and> k < amount pg \<and> life (ParticleGenerator.particles pg ! nat k) \<le> 0) \<longrightarrow>
        i < amount pg \<and> life (ParticleGenerator.particles pg ! nat i) \<le> 0) \<and>
     ((\<forall>k. 0 \<le> k \<and> k < amount pg \<longrightarrow> 0 < life (ParticleGenerator.particles pg ! nat k)) \<longrightarrow> i = 0)"
proof -
  let ?ps = "ParticleGenerator.particles pg"
  let ?alive = "\<forall>k. 0 \<le> k \<and> k < amount pg \<longrightarrow> 0 < life (?ps ! nat k)"
  from wf have len: "amount pg \<le> int (length ?ps)" by (simp add: wf_pool_def)
  have dead: "firstUnusedParticle pg c = Inr (k, k) \<Longrightarrow> 0 \<le> k \<Longrightarrow> k < amount pg \<Longrightarrow>
      life (?ps ! nat k) \<le> 0 \<Longrightarrow> ?thesis" for k
  proof -
    assume a: "firstUnusedParticle pg c = Inr (k, k)" "0 \<le> k" "k < amount pg" "life (?ps ! nat k) \<le> 0"
    then have "\<not> ?alive" by (meson not_less)
    with a show ?thesis by blast
  qed
  from scan_result [OF c(1) len] show ?thesis
  proof (elim disjE exE conjE)
    fix k assume k: "scan ?ps c (amount pg) = Inr (Some k)" "c \<le> k" "k < amount pg" "life (?ps ! nat k) \<le> 0"
    from k(1) have "firstUnusedParticle pg c = Inr (k, k)" by (simp add: firstUnusedParticle_def)
    then show ?thesis using k c by (intro dead [of k]) simp_all
  next
    assume n1: "scan ?ps c (amount pg) = Inr None" "\<forall>k. c \<le> k \<and> k < amount pg \<longrightarrow> 0 < life (?ps ! nat k)"
    from c len have cl: "c \<le> int (length ?ps)" by simp
    have z: "(0::int) \<le> 0" by simp
    from scan_result [OF z cl] show ?thesis
    proof (elim disjE exE conjE)
      fix k assume k: "scan ?ps 0 c = Inr (Some k)" "0 \<le> k" "k < c" "life (?ps ! nat k) \<le> 0"
      from k(1) n1(1) have "firstUnusedParticle pg c = Inr (k, k)" by (simp add: firstUnusedParticle_def)
      then show ?thesis using k c by (intro dead [of k]) simp_all
    next
      assume n2: "scan ?ps 0 c = Inr None" "\<forall>k. 0 \<le> k \<and> k < c \<longrightarrow> 0 < life (?ps ! nat k)"
      have al: ?alive
      proof (intro allI impI)
        fix k assume "0 \<le> k \<and> k < amount pg"
        then show "0 < life (?ps ! nat k)" using n1(2) n2(2) by (cases "k < c") simp_all
      qed
      have f: "firstUnusedParticle pg c = Inr (0, 0)"
        using n1(1) n2(1) by (simp add: firstUnusedParticle_def)
      have "\<not> (\<exists>k. 0 \<le> k \<and> k < amount pg \<and> life (?ps ! nat k) \<le> 0)"
        using al by (meson not_less)
      with f show ?thesis by blast
    qed
  qed
qed

section \<open>The loops of the particle generator\<close>

lemma spawn_loop_done:
  "\<not> i < n \<Longrightarrow> spawn_loop rnd obj off i n pg c = Inr (pg, c)"
  by (simp add: spawn_loop.simps [of rnd obj off i n pg c])

lemma spawn_loop_step:
  "i < n \<Longrightarrow> firstUnusedParticle pg c = Inr (u, c') \<Longrightarrow> 0 \<le> u \<Longrightarrow>
   u < int (length (ParticleGenerator.particles pg)) \<Longrightarrow>
   spawn_loop rnd obj off i n pg c =
   spawn_loop rnd obj off (i + 1) n
     (pg\<lparr>ParticleGenerator.particles := (ParticleGenerator.particles pg)[nat u :=
        respawnParticle (fst (rnd i)) (snd (rnd i)) (ParticleGenerator.particles pg ! nat u) obj off]\<rparr>) c'"
  by (simp add: spawn_loop.simps [of rnd obj off i n pg c])

lemma length_filter_update:
  "i < length xs \<Longrightarrow>
   length (filter P (xs[i := y])) + (if P (xs ! i) then 1 else 0) =
   length (filter P xs) + (if P y then 1 else 0)"
proof (induction xs arbitrary: i)
  case Nil
  then show ?case by simp
next
  case (Cons x xs)
  show ?case
  proof (cases i)
    case 0
    then show ?thesis by simp
  next
    case (Suc j)
    with Cons.prems have "j < length xs" by simp
    from Cons.IH [OF this] Suc show ?thesis by simp
  qed
qed

lemma age_loop_done: "\<not> i < amount pg \<Longrightarrow> age_loop dt i pg = Inr pg"
  by (simp add: age_loop.simps [of dt i pg])

lemma age_loop_step:
  "i < amount pg \<Longrightarrow> 0 \<le> i \<Longrightarrow> i < int (length (ParticleGenerator.particles pg)) \<Longrightarrow>
   age_loop dt i pg = age_loop dt (i + 1)
     (pg\<lparr>ParticleGenerator.particles := (ParticleGenerator.particles pg)[nat i :=
        age dt (ParticleGenerator.particles pg ! nat i)]\<rparr>)"
  by (simp add: age_loop.simps [of dt i pg])

lemma take_map_drop_update:
  "k < length xs \<Longrightarrow>
   take (Suc k) (xs[k := f (xs ! k)]) @ map f (drop (Suc k) (xs[k := f (xs ! k)])) =
   take k xs @ map f (drop k xs)"
proof -
  assume k: "k < length xs"
  have "take (Suc k) (xs[k := f (xs ! k)]) = take k xs @ [f (xs ! k)]"
    using k by (simp add: take_Suc_conv_app_nth)
  moreover have "drop (Suc k) (xs[k := f (xs ! k)]) = drop (Suc k) xs" by simp
  moreover have "drop k xs = xs ! k # drop (Suc k) xs"
    using k by (simp add: Cons_nth_drop_Suc)
  ultimately show ?thesis by simp
qed

lemma age_loop_from:
  "nat (amount pg - i) = k \<Longrightarrow> wf_pool pg \<Longrightarrow> 0 \<le> i \<Longrightarrow> i \<le> amount pg \<Longrightarrow>
   age_loop dt i pg =
   Inr (pg\<lparr>ParticleGenerator.particles := take (nat i) (ParticleGenerator.particles pg) @
            map (age dt) (drop (nat i) (ParticleGenerator.particles pg))\<rparr>)"
proof (induction k arbitrary: i pg)
  case 0
  then have "i = amount pg" by simp
  with 0 show ?case by (simp add: age_loop_done wf_pool_def)
next
  case (Suc k)
  let ?ps = "ParticleGenerator.particles pg"
  let ?pg1 = "pg\<lparr>ParticleGenerator.particles := ?ps[nat i := age dt (?ps ! nat i)]\<rparr>"
  from Suc.prems have i: "i < amount pg" "0 \<le> i" "i < int (length ?ps)" "nat i < length ?ps"
    by (simp_all add: wf_pool_def)
  have st: "age_loop dt i pg = age_loop dt (i + 1) ?pg1"
    using i by (rule_tac age_loop_step)
  have "age_loop dt (i + 1) ?pg1 =
    Inr (?pg1\<lparr>ParticleGenerator.particles := take (nat (i + 1)) (ParticleGenerator.particles ?pg1) @
            map (age dt) (drop (nat (i + 1)) (ParticleGenerator.particles ?pg1))\<rparr>)"
    using Suc.prems i by (intro Suc.IH) (simp_all add: wf_pool_def)
  moreover have "nat (i + 1) = Suc (nat i)" using i by simp
  ultimately show ?case using st take_map_drop_update [OF i(4), of "age dt"] by simp
qed

lemma age_loop_all:
  "wf_pool pg \<Longrightarrow>
   age_loop dt 0 pg = Inr (pg\<lparr>ParticleGenerator.particles := map (age dt) (ParticleGenerator.particles pg)\<rparr>)"
  using age_loop_from [of pg 0 "nat (amount pg)" dt] by (simp add: wf_pool_def)

lemma firstUnusedParticle_in_bounds:
  assumes "wf_pool pg" "0 < amount pg" "0 \<le> c" "c \<le> amount pg"
  shows "\<exists>u. firstUnusedParticle pg c = Inr (u, u) \<and> 0 \<le> u \<and> u < amount pg"
proof -
  from firstUnusedParticle_result [OF assms(1,3,4)] obtain u where
    u: "firstUnusedParticle pg c = Inr (u, u)" "0 \<le> u"
      "(\<exists>k. 0 \<le> k \<and> k < amount pg \<and> life (ParticleGenerator.particles pg ! nat k) \<le> 0) \<longrightarrow>
        u < amount pg \<and> life (ParticleGenerator.particles pg ! nat u) \<le> 0"
      "(\<forall>k. 0 \<le> k \<and> k < amount pg \<longrightarrow> 0 < life (ParticleGenerator.particles pg ! nat k)) \<longrightarrow> u = 0"
    by blast
  have "u < amount pg"
  proof (cases "\<exists>k. 0 \<le> k \<and> k < amount pg \<and> life (ParticleGenerator.particles pg ! nat k) \<le> 0")
    case True
    with u(3) show ?thesis by blast
  next
    case False
    then have "\<forall>k. 0 \<le> k \<and> k < amount pg \<longrightarrow> 0 < life (ParticleGenerator.particles pg ! nat k)"
      by (meson not_less)
    with u(4) assms(2) show ?thesis by simp
  qed
  with u(1,2) show ?thesis by blast
qed

lemma spawn_loop_ok:
  "nat (n - i) = k \<Longrightarrow> wf_pool pg \<Longrightarrow> 0 < amount pg \<Longrightarrow> 0 \<le> c \<Longrightarrow> c \<le> amount pg \<Longrightarrow>
   \<exists>pg' c'. spawn_loop rnd obj off i n pg c = Inr (pg', c') \<and> wf_pool pg' \<and>
     amount pg' = amount pg \<and> 0 \<le> c' \<and> c' \<le> amount pg \<and> (i < n \<longrightarrow> c' < amount pg)"
proof (induction k arbitrary: i pg c)
  case 0
  then have "\<not> i < n" by simp
  with 0 show ?case by (simp add: spawn_loop_done)
next
  case (Suc k)
  let ?ps = "ParticleGenerator.particles pg"
  from Suc.prems have lt: "i < n" by simp
  from firstUnusedParticle_in_bounds [OF Suc.prems(2-5)] obtain u where
    u: "firstUnusedParticle pg c = Inr (u, u)" "0 \<le> u" "u < amount pg" by blast
  let ?pg1 = "pg\<lparr>ParticleGenerator.particles := ?ps[nat u :=
        respawnParticle (fst (rnd i)) (snd (rnd i)) (?ps ! nat u) obj off]\<rparr>"
  from u Suc.prems(2) have ul: "u < int (length ?ps)" by (simp add: wf_pool_def)
  have st: "spawn_loop rnd obj off i n pg c = spawn_loop rnd obj off (i + 1) n ?pg1 u"
    using lt u(1) u(2) ul by (rule spawn_loop_step)
  have wf1: "wf_pool ?pg1" "0 < amount ?pg1" "u \<le> amount ?pg1" "amount ?pg1 = amount pg"
    using Suc.prems u by (simp_all add: wf_pool_def)
  have k: "nat (n - (i + 1)) = k" using Suc.prems(1) by simp
  from Suc.IH [OF k wf1(1) wf1(2) u(2) wf1(3)] obtain pg' c' where
    r: "spawn_loop rnd obj off (i + 1) n ?pg1 u = Inr (pg', c')" "wf_pool pg'"
       "amount pg' = amount ?pg1" "0 \<le> c'" "c' \<le> amount ?pg1" "i + 1 < n \<longrightarrow> c' < amount ?pg1"
    by blast
  have "c' < amount pg"
  proof (cases "i + 1 < n")
    case True
    with r(6) wf1(4) show ?thesis by simp
  next
    case False
    then have "spawn_loop rnd obj off (i + 1) n ?pg1 u = Inr (?pg1, u)" by (rule spawn_loop_done)
    with r(1) u(3) show ?thesis by simp
  qed
  with st r wf1(4) show ?case by simp
qed

lemma ParticleGenerator_Update_ok:
  assumes "wf_pool pg" "0 < amount pg" "0 \<le> c" "c \<le> amount pg"
  shows "\<exists>pg' c'. ParticleGenerator_Update dt obj n off rnd pg c = Inr (pg', c') \<and> wf_pool pg' \<and>
     amount pg' = amount pg \<and> 0 \<le> c' \<and> c' \<le> amount pg \<and> (0 < n \<longrightarrow> c' < amount pg)"
proof -
  from spawn_loop_ok [where n = n and i = 0 and rnd = rnd and obj = obj and off = off, OF refl assms] obtain pg1 c1 where
    s: "spawn_loop rnd obj off 0 n pg c = Inr (pg1, c1)" "wf_pool pg1"
       "amount pg1 = amount pg" "0 \<le> c1" "c1 \<le> amount pg" "0 < n \<longrightarrow> c1 < amount pg"
    by blast
  have "ParticleGenerator_Update dt obj n off rnd pg c =
        Inr (pg1\<lparr>ParticleGenerator.particles := map (age dt) (ParticleGenerator.particles pg1)\<rparr>, c1)"
    using s(1) age_loop_all [OF s(2), of dt] by (simp add: ParticleGenerator_Update_def)
  moreover have "wf_pool (pg1\<lparr>ParticleGenerator.particles := map (age dt) (ParticleGenerator.particles pg1)\<rparr>)"
    using s(2) by (simp add: wf_pool_def)
  ultimately show ?thesis using s by simp
qed

section \<open>Rounding of float32 sums\<close>

lemma two149_pos: "0 < two149"
  by (simp add: two149_def)

lemma roundToEven_ge_floor: "\<lfloor>y\<rfloor> \<le> roundToEven y"
  by (simp add: roundToEven_def Let_def)

lemma roundToEven_of_int: "roundToEven (of_int i) = i"
  by (simp add: roundToEven_def Let_def)

lemma roundToEven_minus: "roundToEven (- y) = - roundToEven y"
proof (cases "of_int \<lfloor>y\<rfloor> = y")
  case True
  then obtain i where "y = of_int i" by metis
  then have "- y = of_int (- i)" by simp
  then show ?thesis unfolding \<open>y = of_int i\<close> by (metis roundToEven_of_int of_int_minus)
next
  case False
  define f where "f = \<lfloor>y\<rfloor>"
  have f: "of_int f < y" "y < of_int f + 1" using False by (auto simp: f_def less_le) linarith+
  have fm: "\<lfloor>- y\<rfloor> = - f - 1"
    using f by (intro floor_unique) auto
  show ?thesis
    using f by (auto simp: roundToEven_def Let_def fm f_def [symmetric])
qed

lemma of_int_floor_mult_le:
  fixes K :: real
  assumes "0 < q" and "of_int j * q \<le> K"
  shows "of_int j * q \<le> of_int (roundToEven (K / q)) * q"
proof -
  from assms have "of_int j \<le> K / q" by (simp add: pos_le_divide_eq)
  then have "j \<le> \<lfloor>K / q\<rfloor>" by (simp add: le_floor_iff)
  also have "\<dots> \<le> roundToEven (K / q)" by (rule roundToEven_ge_floor)
  finally have "(of_int j :: real) \<le> of_int (roundToEven (K / q))" by simp
  with assms(1) show ?thesis by (simp add: mult_right_mono)
qed


lemma round32_exact:
  assumes "is_float32 x"
  shows "round32 x = Fin x"
proof -
  define k where "k = \<lfloor>x * two149\<rfloor>"
  from assms have k: "of_int k = x * two149" "\<bar>x * two149\<bar> < two277" "2 ^ shift32 x dvd k"
    by (simp_all add: is_float32_def k_def)
  from k(3) obtain j where j: "k = 2 ^ shift32 x * j" by (auto simp: dvd_def)
  have "x * two149 / 2 ^ shift32 x = of_int j"
    using k(1) j by (simp flip: k(1))
  then have r: "of_int (roundToEven (x * two149 / 2 ^ shift32 x)) * 2 ^ shift32 x = x * two149"
    using k(1) j by (simp add: roundToEven_of_int flip: k(1))
  have "\<not> two277 \<le> x * two149" "\<not> x * two149 \<le> - two277" using k(2) by linarith+
  then show ?thesis unfolding round32_def Let_def r using two149_pos by simp
qed

lemma round32_ge:
  assumes p: "is_float32 p" and px: "p \<le> x"
  shows "sum_ge (round32 x) p"
proof -
  define K where "K = x * two149"
  define kp where "kp = \<lfloor>p * two149\<rfloor>"
  define q :: real where "q = 2 ^ shift32 x"
  define r where "r = of_int (roundToEven (K / q)) * q"
  from p have kp1: "of_int kp = p * two149" and kp3: "2 ^ shift32 p dvd kp"
    by (simp_all add: is_float32_def kp_def)
  from p have "\<bar>p * two149\<bar> < two277" by (simp add: is_float32_def)
  then have kp2: "\<bar>of_int kp :: real\<bar> < two277" by (simp only: kp1)
  note kp = kp1 kp2 kp3
  have q0: "0 < q" by (simp add: q_def)
  have PK: "of_int kp \<le> K" using px two149_pos by (simp add: kp(1) K_def)
  have main: "of_int kp \<le> r"
  proof (cases "0 \<le> K")
    case Kpos: True
    show ?thesis
    proof (cases "kp \<le> 0")
      case True
      have "of_int 0 * q \<le> of_int (roundToEven (K / q)) * q"
        using q0 Kpos by (intro of_int_floor_mult_le) simp_all
      moreover from True have "(of_int kp :: real) \<le> 0" by simp
      ultimately show ?thesis by (simp add: r_def)
    next
      case False
      then have kp0: "0 < kp" by simp
      define n where "n = bitlen \<lfloor>K\<rfloor>"
      have fK: "kp \<le> \<lfloor>K\<rfloor>" using PK by (simp add: le_floor_iff)
      then have fK0: "0 < \<lfloor>K\<rfloor>" using kp0 by linarith
      have x0: "0 \<le> x" using Kpos two149_pos by (simp add: K_def zero_le_mult_iff)
      have sx: "shift32 x = nat (n - 24)"
        using x0 by (simp add: shift32_def n_def K_def)
      have "0 < p * two149" using kp0 kp(1) by (metis of_int_0_less_iff)
      then have p0: "0 \<le> p" using two149_pos by (simp add: zero_less_mult_iff)
      have sp: "shift32 p = nat (bitlen kp - 24)"
        using p0 by (simp add: shift32_def kp_def)
      show ?thesis
      proof (cases "bitlen kp = n")
        case True
        then have "shift32 p = shift32 x" by (simp add: sx sp)
        with kp(3) obtain j where j: "kp = 2 ^ shift32 x * j" by (auto simp: dvd_def)
        then have "of_int kp = of_int j * q" by (simp add: q_def)
        moreover have "of_int j * q \<le> r"
          unfolding r_def using q0 PK \<open>of_int kp = of_int j * q\<close>
          by (intro of_int_floor_mult_le) simp_all
        ultimately show ?thesis by simp
      next
        case False
        have "bitlen kp \<le> n"
          unfolding n_def using fK kp0 by (simp add: bitlen_def floorlog_mono)
        with False have lt: "bitlen kp \<le> n - 1" by simp
        then have "kp < 2 ^ nat (n - 1)" using bitlen_le_iff_power [of kp "n - 1"] by blast
        then have "real_of_int kp < real_of_int (2 ^ nat (n - 1))" by (simp only: of_int_less_iff)
        then have kplt: "real_of_int kp < 2 ^ nat (n - 1)" by simp
        have "2 ^ nat (n - 1) \<le> \<lfloor>K\<rfloor>"
          using bitlen_bounds [OF fK0] by (simp add: n_def)
        then have "real_of_int (2 ^ nat (n - 1)) \<le> real_of_int \<lfloor>K\<rfloor>"
          by (simp only: of_int_le_iff)
        also have "\<dots> \<le> K" by (rule of_int_floor_le)
        finally have bK: "(2::real) ^ nat (n - 1) \<le> K" by simp
        have "nat (n - 24) \<le> nat (n - 1)" by simp
        then obtain d where d: "nat (n - 1) = nat (n - 24) + d" by (metis le_Suc_ex)
        have e: "(2::real) ^ nat (n - 1) = of_int (2 ^ d) * q"
          by (simp add: q_def sx d power_add)
        have "of_int (2 ^ d) * q \<le> of_int (roundToEven (K / q)) * q"
          using q0 bK by (intro of_int_floor_mult_le) (simp_all only: e [symmetric])
        then have "(2::real) ^ nat (n - 1) \<le> r" by (simp only: e r_def)
        with kplt show ?thesis by linarith
      qed
    qed
  next
    case Kneg: False
    then have K0: "K < 0" by simp
    with PK have kpn: "kp < 0" by (smt (verit) of_int_less_0_iff)
    have "real_of_int \<lfloor>\<bar>K\<bar>\<rfloor> \<le> \<bar>K\<bar>" by (rule of_int_floor_le)
    also have "\<dots> \<le> real_of_int \<bar>kp\<bar>" using PK K0 kpn by simp
    finally have ab: "\<lfloor>\<bar>K\<bar>\<rfloor> \<le> \<bar>kp\<bar>" by (simp only: of_int_le_iff)
    have ab149: "\<bar>y * two149\<bar> = \<bar>y\<bar> * two149" for y
      using two149_pos by (simp add: abs_mult)
    have sx: "shift32 x = nat (bitlen \<lfloor>\<bar>K\<bar>\<rfloor> - 24)"
      by (simp add: shift32_def K_def ab149)
    have "\<bar>p\<bar> * two149 = \<bar>of_int kp\<bar>" by (simp only: kp(1) ab149)
    then have "\<lfloor>\<bar>p\<bar> * two149\<rfloor> = \<bar>kp\<bar>" by (metis floor_of_int of_int_abs)
    then have sp: "shift32 p = nat (bitlen \<bar>kp\<bar> - 24)"
      by (simp only: shift32_def)
    have "bitlen \<lfloor>\<bar>K\<bar>\<rfloor> \<le> bitlen \<bar>kp\<bar>"
      using ab by (simp add: bitlen_def floorlog_mono)
    then have "shift32 x \<le> shift32 p" by (simp add: sx sp)
    then have "(2::int) ^ shift32 x dvd 2 ^ shift32 p" by (simp add: le_imp_power_dvd)
    then have "2 ^ shift32 x dvd kp" using kp(3) by (rule dvd_trans)
    then obtain j where j: "kp = 2 ^ shift32 x * j" by (auto simp: dvd_def)
    then have e: "of_int kp = of_int j * q" by (simp add: q_def)
    have "of_int j * q \<le> r"
      unfolding r_def using q0 PK e by (intro of_int_floor_mult_le) simp_all
    with e show ?thesis by simp
  qed
  have r: "round32 x = (if two277 \<le> r then PosInf else if r \<le> - two277 then NegInf
                        else Fin (r / two149))"
    by (simp add: round32_def r_def q_def K_def Let_def)
  show ?thesis
  proof (cases "two277 \<le> r")
    case True
    then show ?thesis by (simp add: r sum_ge_def)
  next
    case False
    have "\<not> r \<le> - two277" using main kp(2) by linarith
    moreover have "p \<le> r / two149"
      using main kp(1) two149_pos by (simp add: pos_le_divide_eq)
    ultimately show ?thesis using False by (simp add: r sum_ge_def)
  qed
qed


lemma two277_pos: "0 < two277"
  by (simp add: two277_def)

lemma shift32_minus: "shift32 (- x) = shift32 x"
  by (simp add: shift32_def)

lemma is_float32_minus: "is_float32 x \<Longrightarrow> is_float32 (- x)"
proof -
  assume a: "is_float32 x"
  define k where "k = \<lfloor>x * two149\<rfloor>"
  from a have k: "of_int k = x * two149" "\<bar>x * two149\<bar> < two277" "2 ^ shift32 x dvd k"
    by (simp_all add: is_float32_def k_def)
  have m: "- x * two149 = of_int (- k)" using k(1) by simp
  then have f: "\<lfloor>- x * two149\<rfloor> = - k" by (metis floor_of_int)
  have "of_int \<lfloor>- x * two149\<rfloor> = - x * two149" by (metis f m)
  moreover have "\<bar>- x * two149\<bar> < two277" using k(2) by simp
  moreover have "2 ^ shift32 (- x) dvd \<lfloor>- x * two149\<rfloor>"
    using k(3) by (simp only: f shift32_minus dvd_minus_iff)
  ultimately show ?thesis by (simp only: is_float32_def)
qed

lemma round32_minus_cases:
  "round32 (- x) = (case round32 x of NegInf \<Rightarrow> PosInf | Fin r \<Rightarrow> Fin (- r) | PosInf \<Rightarrow> NegInf)"
proof -
  define r where "r = real_of_int (roundToEven (x * two149 / 2 ^ shift32 x)) * 2 ^ shift32 x"
  have m: "real_of_int (roundToEven (- x * two149 / 2 ^ shift32 x)) * 2 ^ shift32 x = - r"
    using roundToEven_minus [of "x * two149 / 2 ^ shift32 x"] by (simp add: r_def)
  have a: "round32 x = (if two277 \<le> r then PosInf else if r \<le> - two277 then NegInf
                        else Fin (r / two149))"
    by (simp add: round32_def r_def Let_def)
  have b: "round32 (- x) = (if two277 \<le> - r then PosInf else if - r \<le> - two277 then NegInf
                        else Fin (- r / two149))"
    unfolding round32_def Let_def shift32_minus m by simp
  show ?thesis using two277_pos by (simp add: a b)
qed

lemma round32_le:
  assumes "is_float32 b" and "x \<le> b"
  shows "round32 x = NegInf \<or> (\<exists>r. round32 x = Fin r \<and> r \<le> b)"
proof -
  from assms have "sum_ge (round32 (- x)) (- b)"
    by (intro round32_ge is_float32_minus) simp_all
  then show ?thesis
    by (cases "round32 x") (simp_all add: round32_minus_cases sum_ge_def)
qed

lemma bitlen_eqI:
  "2 ^ n \<le> k \<Longrightarrow> k < 2 ^ Suc n \<Longrightarrow> bitlen k = int (Suc n)"
  using bitlen_twopow_add_eq [of "k - 2 ^ n" n] by simp


lemma round32_eval:
  "round32 (256 + 3 / 65536) = Fin (256 + 1 / 16384)"
  by (simp add: round32_def shift32_def two149_def two277_def roundToEven_def Let_def
        bitlen_eqI [of 157])

lemma is_float32_samples:
  "is_float32 0" "is_float32 (- 1)" "is_float32 10" "is_float32 15" "is_float32 20"
  "is_float32 30" "is_float32 100" "is_float32 250" "is_float32 770" "is_float32 790"
  "is_float32 (236 + 3 / 65536)" "is_float32 (256 + 1 / 16384)"
  "is_float32 (15466499 / 65536)" "is_float32 (4194305 / 16384)"
  by (simp_all add: is_float32_def shift32_def two149_def two277_def
        bitlen_eqI [of 149] bitlen_eqI [of 152] bitlen_eqI [of 153] bitlen_eqI [of 155]
        bitlen_eqI [of 156] bitlen_eqI [of 157] bitlen_eqI [of 158])

section \<open>Collision test\<close>

lemma extent_disjoint_iff:
  "0 \<le> s \<Longrightarrow> 0 \<le> t \<Longrightarrow>
   ({a .. a + s} \<inter> {b .. b + t} = {}) = (a + s < b \<or> b + t < (a::real))"
  by auto

lemma float32_add_ge_self:
  "is_float32 a \<Longrightarrow> 0 \<le> s \<Longrightarrow> sum_ge (float32_add a s) a"
  unfolding float32_add_def by (rule round32_ge) simp_all

lemma float32_add_below:
  assumes "is_float32 b" and "a + s < b" and "float32_add a s \<noteq> Fin b"
  shows "\<not> sum_ge (float32_add a s) b"
proof -
  from assms(2) have "a + s \<le> b" by simp
  from round32_le [OF assms(1) this] assms(3) show ?thesis
    by (auto simp: float32_add_def sum_ge_def)
qed

lemma separated_axis:
  assumes "is_float32 a" and "is_float32 b" and "0 \<le> s" and "0 \<le> t"
    and "{a .. a + s} \<inter> {b .. b + t} = {}"
    and "float32_add a s \<noteq> Fin b" and "float32_add b t \<noteq> Fin a"
  shows "\<not> (sum_ge (float32_add a s) b \<and> sum_ge (float32_add b t) a)"
proof -
  from extent_disjoint_iff [OF assms(3) assms(4), of a b] assms(5)
  have "a + s < b \<or> b + t < a" by blast
  then show ?thesis
  proof
    assume "a + s < b"
    from float32_add_below [OF assms(2) this assms(6)] show ?thesis by simp
  next
    assume "b + t < a"
    from float32_add_below [OF assms(1) this assms(7)] show ?thesis by simp
  qed
qed

text \<open>
  Claim C3, as the code has it.  \<open>CheckCollision\<close> is symmetric for all game objects.
  An object with finite float32 coordinates whose size is not negative on either axis
  collides with itself.  Two such objects whose extents are disjoint on the x axis or on
  the y axis do not collide, unless on that axis the float32 sum position + size of one
  of them is rounded exactly onto the position of the other.
\<close>

theorem CheckCollision_symmetric_reflexive_separated:
  "CheckCollision A B = CheckCollision B A \<and>
   (float32_box A \<and> nonneg_size A \<longrightarrow> CheckCollision A A) \<and>
   (float32_box A \<and> float32_box B \<and> nonneg_size A \<and> nonneg_size B \<and>
      (extentX A \<inter> extentX B = {} \<and>
       float32_add (X (position A)) (X (size_v A)) \<noteq> Fin (X (position B)) \<and>
       float32_add (X (position B)) (X (size_v B)) \<noteq> Fin (X (position A)) \<or>
       extentY A \<inter> extentY B = {} \<and>
       float32_add (Y (position A)) (Y (size_v A)) \<noteq> Fin (Y (position B)) \<and>
       float32_add (Y (position B)) (Y (size_v B)) \<noteq> Fin (Y (position A))) \<longrightarrow>
    \<not> CheckCollision A B)"
proof (intro conjI impI)
  show "CheckCollision A B = CheckCollision B A"
    by (auto simp: CheckCollision_def Let_def)
next
  assume "float32_box A \<and> nonneg_size A"
  then show "CheckCollision A A"
    by (simp add: CheckCollision_def float32_box_def nonneg_size_def float32_add_ge_self)
next
  assume a: "float32_box A \<and> float32_box B \<and> nonneg_size A \<and> nonneg_size B \<and>
      (extentX A \<inter> extentX B = {} \<and>
       float32_add (X (position A)) (X (size_v A)) \<noteq> Fin (X (position B)) \<and>
       float32_add (X (position B)) (X (size_v B)) \<noteq> Fin (X (position A)) \<or>
       extentY A \<inter> extentY B = {} \<and>
       float32_add (Y (position A)) (Y (size_v A)) \<noteq> Fin (Y (position B)) \<and>
       float32_add (Y (position B)) (Y (size_v B)) \<noteq> Fin (Y (position A)))"
  then have f: "is_float32 (X (position A))" "is_float32 (X (position B))"
      "is_float32 (Y (position A))" "is_float32 (Y (position B))"
    and n: "0 \<le> X (size_v A)" "0 \<le> X (size_v B)" "0 \<le> Y (size_v A)" "0 \<le> Y (size_v B)"
    by (simp_all add: float32_box_def nonneg_size_def)
  from a consider
    (x) "extentX A \<inter> extentX B = {}"
       "float32_add (X (position A)) (X (size_v A)) \<noteq> Fin (X (position B))"
       "float32_add (X (position B)) (X (size_v B)) \<noteq> Fin (X (position A))"
    | (y) "extentY A \<inter> extentY B = {}"
       "float32_add (Y (position A)) (Y (size_v A)) \<noteq> Fin (Y (position B))"
       "float32_add (Y (position B)) (Y (size_v B)) \<noteq> Fin (Y (position A))"
    by blast
  then show "\<not> CheckCollision A B"
  proof cases
    case x
    from separated_axis [OF f(1) f(2) n(1) n(2) x(1) [unfolded extentX_def] x(2) x(3)]
    show ?thesis unfolding CheckCollision_def Let_def by blast
  next
    case y
    from separated_axis [OF f(3) f(4) n(3) n(4) y(1) [unfolded extentY_def] y(2) y(3)]
    show ?thesis unfolding CheckCollision_def Let_def by blast
  qed
qed


lemma float32_add_samples:
  "float32_add 10 20 = Fin 30" "float32_add 770 20 = Fin 790" "float32_add 0 (- 1) = Fin (- 1)"
  "float32_add (236 + 3 / 65536) 20 = Fin (256 + 1 / 16384)"
  using round32_exact [OF is_float32_samples(6)] round32_exact [OF is_float32_samples(10)]
    round32_exact [OF is_float32_samples(2)] round32_eval
  by (simp_all add: float32_add_def)

text \<open>
  The theorem at the two paddles of the 800 by 600 window, at (10, 250) and (770, 250)
  with size (20, 100): their coordinates are floats, their sizes are not negative, their
  extents on the x axis are disjoint, the sums 10 + 20 and 770 + 20 are exact, and they
  do not collide; the left paddle collides with itself.
\<close>

theorem CheckCollision_witness:
  "float32_box (newGameObject (10, 250) (20, 100)) \<and>
   float32_box (newGameObject (770, 250) (20, 100)) \<and>
   nonneg_size (newGameObject (10, 250) (20, 100)) \<and>
   nonneg_size (newGameObject (770, 250) (20, 100)) \<and>
   extentX (newGameObject (10, 250) (20, 100)) \<inter> extentX (newGameObject (770, 250) (20, 100)) = {} \<and>
   float32_add 10 20 = Fin 30 \<and> float32_add 770 20 = Fin 790 \<and>
   \<not> CheckCollision (newGameObject (10, 250) (20, 100)) (newGameObject (770, 250) (20, 100)) \<and>
   CheckCollision (newGameObject (10, 250) (20, 100)) (newGameObject (10, 250) (20, 100)) \<and>
   CheckCollision (newGameObject (10, 250) (20, 100)) (newGameObject (770, 250) (20, 100)) =
   CheckCollision (newGameObject (770, 250) (20, 100)) (newGameObject (10, 250) (20, 100))"
proof -
  let ?A = "newGameObject (10, 250) (20, 100)"
  let ?B = "newGameObject (770, 250) (20, 100)"
  have b: "float32_box ?A" "float32_box ?B"
    by (simp_all add: float32_box_def newGameObject_def X_def Y_def is_float32_samples)
  have n: "nonneg_size ?A" "nonneg_size ?B"
    by (simp_all add: nonneg_size_def newGameObject_def X_def Y_def)
  have d: "extentX ?A \<inter> extentX ?B = {}"
    by (simp add: extentX_def newGameObject_def X_def)
  have s: "float32_add (X (position ?A)) (X (size_v ?A)) \<noteq> Fin (X (position ?B))"
    "float32_add (X (position ?B)) (X (size_v ?B)) \<noteq> Fin (X (position ?A))"
    by (simp_all add: newGameObject_def X_def float32_add_samples)
  from CheckCollision_symmetric_reflexive_separated [of ?A ?B] b n d s
  have "\<not> CheckCollision ?A ?B \<and> CheckCollision ?A ?A \<and>
        CheckCollision ?A ?B = CheckCollision ?B ?A"
    by blast
  then show ?thesis using b n d float32_add_samples(1,2) by blast
qed

text \<open>
  Claim C3 as stated fails in two ways.  The box at the origin with size (-1, -1) does
  not collide with itself.  And the ball of radius 10 at (15, 236 + 3/65536) and the
  paddle at (10, 256 + 1/16384), both with float coordinates and sizes that are not
  negative, have disjoint extents on the y axis, the lower edge of the ball at
  256 + 3/65536 being above the paddle; but the float32 sum is rounded to
  256 + 1/16384, the position of the paddle, and they collide.
\<close>

theorem CheckCollision_negative_size_counterexample:
  "\<not> CheckCollision (newGameObject (0, 0) (- 1, - 1)) (newGameObject (0, 0) (- 1, - 1)) \<and>
   float32_box (newBallObject (15, 236 + 3 / 65536) 10 (450, 300)) \<and>
   float32_box (newGameObject (10, 256 + 1 / 16384) (20, 100)) \<and>
   nonneg_size (newBallObject (15, 236 + 3 / 65536) 10 (450, 300)) \<and>
   nonneg_size (newGameObject (10, 256 + 1 / 16384) (20, 100)) \<and>
   extentY (newBallObject (15, 236 + 3 / 65536) 10 (450, 300)) \<inter>
     extentY (newGameObject (10, 256 + 1 / 16384) (20, 100)) = {} \<and>
   CheckCollision (newBallObject (15, 236 + 3 / 65536) 10 (450, 300))
     (newGameObject (10, 256 + 1 / 16384) (20, 100))"
proof -
  let ?N = "newGameObject (0, 0) (- 1, - 1)"
  let ?b = "newBallObject (15, 236 + 3 / 65536) 10 (450, 300)"
  let ?p = "newGameObject (10, 256 + 1 / 16384) (20, 100)"
  have 1: "\<not> CheckCollision ?N ?N"
    by (simp add: CheckCollision_def newGameObject_def X_def Y_def float32_add_samples sum_ge_def)
  have f: "float32_box ?b" "float32_box ?p"
    by (simp_all add: float32_box_def newBallObject_def newGameObject_def X_def Y_def
          is_float32_samples)
  have n: "nonneg_size ?b" "nonneg_size ?p"
    by (simp_all add: nonneg_size_def newBallObject_def newGameObject_def X_def Y_def)
  have d: "extentY ?b \<inter> extentY ?p = {}"
    by (simp add: extentY_def newBallObject_def newGameObject_def Y_def)
  have x1: "sum_ge (float32_add 15 20) 10"
    unfolding float32_add_def by (rule round32_ge) (simp_all add: is_float32_samples)
  have x2: "sum_ge (float32_add 10 20) 15"
    unfolding float32_add_def by (rule round32_ge) (simp_all add: is_float32_samples)
  have y1: "sum_ge (float32_add (236 + 3 / 65536) 20) (256 + 1 / 16384)"
    unfolding float32_add_samples(4) by (simp add: sum_ge_def)
  have y2: "sum_ge (float32_add (256 + 1 / 16384) 100) (236 + 3 / 65536)"
    unfolding float32_add_def by (rule round32_ge) (simp_all add: is_float32_samples)
  have c: "CheckCollision ?b ?p"
    using x1 x2 y1 y2
    by (simp add: CheckCollision_def newBallObject_def newGameObject_def X_def Y_def)
  from 1 f n d c show ?thesis by blast
qed

section \<open>Wall reflection\<close>

lemma Move_top:
  "\<not> isStuck b \<Longrightarrow> Y (integrated dt b) \<le> 0 \<Longrightarrow>
   Move dt wd ht b = b\<lparr>velocity := (X (velocity b), - Y (velocity b)),
                        position := (X (integrated dt b), 0)\<rparr>"
  by (simp add: Move_def integrated_def Let_def)

lemma Move_bottom:
  "\<not> isStuck b \<Longrightarrow> 0 < Y (integrated dt b) \<Longrightarrow>
   Y (integrated dt b) + Y (size_v b) \<ge> float32_of_int ht \<Longrightarrow>
   Move dt wd ht b = b\<lparr>velocity := (X (velocity b), - Y (velocity b)),
                        position := (X (integrated dt b), float32_of_int ht - Y (size_v b))\<rparr>"
  by (simp add: Move_def integrated_def Let_def)

text \<open>
  Claim C4, as the code has it.  For a ball that is not stuck: when the integrated
  position has y at most 0, \<open>Move\<close> negates the y component of the velocity (so a
  negative one becomes positive) and sets position.y to 0; when the integrated position
  has y above 0 and y + size.y at least the window height, \<open>Move\<close> negates the y
  component of the velocity and sets position.y to the window height minus size.y.
  The integrated y is above 0 whenever y + size.y is at least the window height and the
  ball is lower than the window (size.y below the window height).
\<close>

theorem Move_wall_reflection:
  "(\<not> isStuck b \<and> Y (integrated dt b) \<le> 0 \<longrightarrow>
      Y (velocity (Move dt wd ht b)) = - Y (velocity b) \<and>
      (Y (velocity b) < 0 \<longrightarrow> 0 < Y (velocity (Move dt wd ht b))) \<and>
      Y (position (Move dt wd ht b)) = 0) \<and>
   (\<not> isStuck b \<and> 0 < Y (integrated dt b) \<and>
    Y (integrated dt b) + Y (size_v b) \<ge> float32_of_int ht \<longrightarrow>
      Y (velocity (Move dt wd ht b)) = - Y (velocity b) \<and>
      (0 < Y (velocity b) \<longrightarrow> Y (velocity (Move dt wd ht b)) < 0) \<and>
      Y (position (Move dt wd ht b)) = float32_of_int ht - Y (size_v b)) \<and>
   (\<not> isStuck b \<and> Y (size_v b) < float32_of_int ht \<and>
    Y (integrated dt b) + Y (size_v b) \<ge> float32_of_int ht \<longrightarrow>
      Y (velocity (Move dt wd ht b)) = - Y (velocity b) \<and>
      Y (position (Move dt wd ht b)) = float32_of_int ht - Y (size_v b))"
proof (intro conjI impI)
  assume a: "\<not> isStuck b \<and> Y (integrated dt b) \<le> 0"
  then have m: "Move dt wd ht b = b\<lparr>velocity := (X (velocity b), - Y (velocity b)),
                        position := (X (integrated dt b), 0)\<rparr>"
    by (simp add: Move_top)
  show "Y (velocity (Move dt wd ht b)) = - Y (velocity b)" by (simp add: m Y_def)
  show "Y (position (Move dt wd ht b)) = 0" by (simp add: m Y_def)
  assume "Y (velocity b) < 0"
  then show "0 < Y (velocity (Move dt wd ht b))" by (simp add: m Y_def)
next
  assume a: "\<not> isStuck b \<and> 0 < Y (integrated dt b) \<and>
    Y (integrated dt b) + Y (size_v b) \<ge> float32_of_int ht"
  then have m: "Move dt wd ht b = b\<lparr>velocity := (X (velocity b), - Y (velocity b)),
                        position := (X (integrated dt b), float32_of_int ht - Y (size_v b))\<rparr>"
    by (simp add: Move_bottom)
  show "Y (velocity (Move dt wd ht b)) = - Y (velocity b)" by (simp add: m Y_def)
  show "Y (position (Move dt wd ht b)) = float32_of_int ht - Y (size_v b)" by (simp add: m Y_def)
  assume "0 < Y (velocity b)"
  then show "Y (velocity (Move dt wd ht b)) < 0" by (simp add: m Y_def)
next
  assume a: "\<not> isStuck b \<and> Y (size_v b) < float32_of_int ht \<and>
    Y (integrated dt b) + Y (size_v b) \<ge> float32_of_int ht"
  then have "0 < Y (integrated dt b)" by simp
  with a have m: "Move dt wd ht b = b\<lparr>velocity := (X (velocity b), - Y (velocity b)),
                        position := (X (integrated dt b), float32_of_int ht - Y (size_v b))\<rparr>"
    by (simp add: Move_bottom)
  show "Y (velocity (Move dt wd ht b)) = - Y (velocity b)" by (simp add: m Y_def)
  show "Y (position (Move dt wd ht b)) = float32_of_int ht - Y (size_v b)" by (simp add: m Y_def)
qed

text \<open>
  The theorem at the two walls of the 800 by 600 window, with the ball of the game
  (radius 10) and a frame of 1/100: a ball at y = 2 moving up reaches y = -1 and is put
  at 0 with velocity.y = 300; a ball at y = 579 moving down reaches y = 582, its lower
  edge 602, and is put at 580 with velocity.y = -300.
\<close>

theorem Move_wall_reflection_witness:
  "(\<not> isStuck (newBallObject (390, 2) 10 (450, - 300)) \<and>
    Y (integrated (1 / 100) (newBallObject (390, 2) 10 (450, - 300))) \<le> 0 \<and>
    Y (velocity (newBallObject (390, 2) 10 (450, - 300))) < 0 \<and>
    Y (velocity (Move (1 / 100) 800 600 (newBallObject (390, 2) 10 (450, - 300)))) = 300 \<and>
    Y (position (Move (1 / 100) 800 600 (newBallObject (390, 2) 10 (450, - 300)))) = 0) \<and>
   (\<not> isStuck (newBallObject (390, 579) 10 (450, 300)) \<and>
    0 < Y (integrated (1 / 100) (newBallObject (390, 579) 10 (450, 300))) \<and>
    Y (integrated (1 / 100) (newBallObject (390, 579) 10 (450, 300))) +
      Y (size_v (newBallObject (390, 579) 10 (450, 300))) \<ge> float32_of_int 600 \<and>
    Y (size_v (newBallObject (390, 579) 10 (450, 300))) < float32_of_int 600 \<and>
    0 < Y (velocity (newBallObject (390, 579) 10 (450, 300))) \<and>
    Y (velocity (Move (1 / 100) 800 600 (newBallObject (390, 579) 10 (450, 300)))) = - 300 \<and>
    Y (position (Move (1 / 100) 800 600 (newBallObject (390, 579) 10 (450, 300)))) = 580)"
proof -
  let ?t = "newBallObject (390, 2) 10 (450, - 300)"
  let ?b = "newBallObject (390, 579) 10 (450, 300)"
  have t: "\<not> isStuck ?t \<and> Y (integrated (1 / 100) ?t) \<le> 0"
    by (simp add: newBallObject_def integrated_def Add_def Mul_def X_def Y_def)
  have tv: "Y (velocity ?t) = - 300" "Y (velocity ?t) < 0"
    by (simp_all add: newBallObject_def Y_def)
  have b: "\<not> isStuck ?b \<and> 0 < Y (integrated (1 / 100) ?b) \<and>
           Y (integrated (1 / 100) ?b) + Y (size_v ?b) \<ge> float32_of_int 600"
    by (simp add: newBallObject_def integrated_def Add_def Mul_def X_def Y_def float32_of_int_def)
  have bv: "Y (velocity ?b) = 300" "Y (size_v ?b) = 20" "float32_of_int 600 = 600"
    by (simp_all add: newBallObject_def Y_def float32_of_int_def)
  from Move_wall_reflection [of ?t "1 / 100" 800 600] t tv
  have "Y (velocity (Move (1 / 100) 800 600 ?t)) = 300 \<and> Y (position (Move (1 / 100) 800 600 ?t)) = 0"
    by simp
  moreover
  from Move_wall_reflection [of ?b "1 / 100" 800 600] b bv
  have "Y (velocity (Move (1 / 100) 800 600 ?b)) = - 300 \<and>
        Y (position (Move (1 / 100) 800 600 ?b)) = 580"
    by simp
  ultimately show ?thesis using t tv(2) b bv by simp
qed

text \<open>
  Claim C4 as stated fails when both wall tests hold, which a window lower than the
  ball allows: the top wall is tested first.  In a window of height 15 the ball of
  radius 10 that reaches y = -1 has its lower edge at 19, at least the window height,
  and \<open>Move\<close> puts it at y = 0, not at 15 - 20 = -5.
\<close>

theorem Move_bottom_counterexample:
  "\<not> isStuck (newBallObject (100, - 4) 10 (450, 300)) \<and>
   Y (integrated (1 / 100) (newBallObject (100, - 4) 10 (450, 300))) +
     Y (size_v (newBallObject (100, - 4) 10 (450, 300))) \<ge> float32_of_int 15 \<and>
   Y (position (Move (1 / 100) 800 15 (newBallObject (100, - 4) 10 (450, 300)))) = 0 \<and>
   Y (position (Move (1 / 100) 800 15 (newBallObject (100, - 4) 10 (450, 300)))) \<noteq>
     float32_of_int 15 - Y (size_v (newBallObject (100, - 4) 10 (450, 300)))"
  by (simp add: Move_def newBallObject_def integrated_def Add_def Mul_def X_def Y_def
        float32_of_int_def Let_def)

section \<open>The cursor of the pool\<close>

lemma cursor_reachable_bounds:
  "cursor_reachable n c \<Longrightarrow> 0 < n \<Longrightarrow> 0 \<le> c \<and> c < n"
proof (induction rule: cursor_reachable.induct)
  case (start n)
  then show ?case by simp
next
  case (call n c pg i c')
  then have c: "0 \<le> c" "c \<le> amount pg" "0 < amount pg" by simp_all
  from firstUnusedParticle_in_bounds [OF call.hyps(3) c(3) c(1) c(2)] call.hyps(4) call.hyps(2)
  show ?case by auto
qed

lemma dead_member_index:
  assumes "\<exists>p \<in> set ps. life p \<le> 0"
  shows "\<exists>k. 0 \<le> k \<and> k < int (length ps) \<and> life (ps ! nat k) \<le> 0"
proof -
  from assms obtain j where "j < length ps" "life (ps ! j) \<le> 0"
    by (auto simp: in_set_conv_nth)
  then have "0 \<le> int j \<and> int j < int (length ps) \<and> life (ps ! nat (int j)) \<le> 0" by simp
  then show ?thesis by blast
qed

lemma all_alive_index:
  assumes "\<forall>p \<in> set ps. 0 < life p"
  shows "\<forall>k. 0 \<le> k \<and> k < int (length ps) \<longrightarrow> 0 < life (ps ! nat k)"
  using assms by (simp add: nat_less_iff)

text \<open>
  Claim C9.  For a pool of \<open>n > 0\<close> slots (50 in the game), every value that
  \<open>lastUsedParticle\<close> takes, starting from 0, lies in \<open>[0, n)\<close>.  From such a value
  \<open>firstUnusedParticle\<close> returns without a fault an index in \<open>[0, n)\<close>, which is also
  the new value of \<open>lastUsedParticle\<close>; when some slot has life at most 0, the slot
  returned has life at most 0.  Hence \<open>Update\<close>, whose spawn loop accesses the pool at
  the index returned, ends without a fault, on a pool of the same size and with
  \<open>lastUsedParticle\<close> in \<open>[0, n)\<close> again.
\<close>

theorem lastUsedParticle_in_pool_bounds:
  assumes "cursor_reachable n c" and "0 < n" and "wf_pool pg" and "amount pg = n"
  shows "0 \<le> c \<and> c < n \<and>
    (\<exists>i. firstUnusedParticle pg c = Inr (i, i) \<and> 0 \<le> i \<and> i < n \<and> cursor_reachable n i \<and>
       ((\<exists>p \<in> set (ParticleGenerator.particles pg). life p \<le> 0) \<longrightarrow>
          life (ParticleGenerator.particles pg ! nat i) \<le> 0)) \<and>
    (\<exists>pg' c'. ParticleGenerator_Update dt obj k off rnd pg c = Inr (pg', c') \<and>
       wf_pool pg' \<and> amount pg' = n \<and> 0 \<le> c' \<and> c' < n)"
proof -
  from cursor_reachable_bounds [OF assms(1,2)] have c: "0 \<le> c" "c < n" by simp_all
  then have c': "c \<le> amount pg" using assms(4) by simp
  from firstUnusedParticle_result [OF assms(3) c(1) c'] obtain i where
    i: "firstUnusedParticle pg c = Inr (i, i)" "0 \<le> i"
      "(\<exists>k. 0 \<le> k \<and> k < amount pg \<and> life (ParticleGenerator.particles pg ! nat k) \<le> 0) \<longrightarrow>
        i < amount pg \<and> life (ParticleGenerator.particles pg ! nat i) \<le> 0"
    by blast
  have r: "cursor_reachable n i"
    using assms(1) assms(4) assms(3) i(1) by (rule cursor_reachable.call)
  from cursor_reachable_bounds [OF r assms(2)] have ib: "i < n" by simp
  have d: "(\<exists>p \<in> set (ParticleGenerator.particles pg). life p \<le> 0) \<longrightarrow>
          life (ParticleGenerator.particles pg ! nat i) \<le> 0"
  proof
    assume "\<exists>p \<in> set (ParticleGenerator.particles pg). life p \<le> 0"
    from dead_member_index [OF this] assms(3)
    have "\<exists>k. 0 \<le> k \<and> k < amount pg \<and> life (ParticleGenerator.particles pg ! nat k) \<le> 0"
      by (simp add: wf_pool_def)
    with i(3) show "life (ParticleGenerator.particles pg ! nat i) \<le> 0" by blast
  qed
  have pos: "0 < amount pg" using assms(2,4) by simp
  from ParticleGenerator_Update_ok [OF assms(3) pos c(1) c', of dt obj k off rnd]
  obtain pg' c1 where
    u: "ParticleGenerator_Update dt obj k off rnd pg c = Inr (pg', c1)" "wf_pool pg'"
       "amount pg' = amount pg" "0 \<le> c1" "c1 \<le> amount pg" "0 < k \<longrightarrow> c1 < amount pg"
    by blast
  have "c1 < n"
  proof (cases "0 < k")
    case True
    with u(6) assms(4) show ?thesis by simp
  next
    case False
    then have "spawn_loop rnd obj off 0 k pg c = Inr (pg, c)" by (simp add: spawn_loop_done)
    with u(1) age_loop_all [OF assms(3), of dt] have "c1 = c"
      by (simp add: ParticleGenerator_Update_def)
    with c(2) show ?thesis by simp
  qed
  with u assms(4) have
    "\<exists>pg' c'. ParticleGenerator_Update dt obj k off rnd pg c = Inr (pg', c') \<and>
       wf_pool pg' \<and> amount pg' = n \<and> 0 \<le> c' \<and> c' < n"
    by auto
  with c i(1,2) ib r d show ?thesis by blast
qed

lemma wf_pool_new: "0 \<le> n \<Longrightarrow> wf_pool (newParticleGenerator n)"
  by (simp add: wf_pool_def newParticleGenerator_def Init_def)

lemma amount_new: "amount (newParticleGenerator n) = n"
  by (simp add: newParticleGenerator_def Init_def)

text \<open>
  The theorem at the pool of the game when it starts: 50 slots as \<open>Init\<close> creates them
  and \<open>lastUsedParticle\<close> at 0.  The call returns an index below 50 of a slot with life
  at most 0, and the call of \<open>Update\<close> that the game makes in a frame returns.
\<close>

theorem lastUsedParticle_in_pool_bounds_witness:
  "cursor_reachable 50 0 \<and> (0::int) < 50 \<and> wf_pool (newParticleGenerator 50) \<and>
   amount (newParticleGenerator 50) = 50 \<and>
   (\<exists>i. firstUnusedParticle (newParticleGenerator 50) 0 = Inr (i, i) \<and> 0 \<le> i \<and> i < 50 \<and>
      life (ParticleGenerator.particles (newParticleGenerator 50) ! nat i) \<le> 0) \<and>
   (\<exists>pg' c'. ParticleGenerator_Update (1 / 100) sample_ball 1 (10, 10) sample_draws
       (newParticleGenerator 50) 0 = Inr (pg', c') \<and> 0 \<le> c' \<and> c' < 50)"
proof -
  have r: "cursor_reachable 50 0" by (rule cursor_reachable.start)
  have p: "(0::int) < 50" by simp
  have e: "\<exists>p \<in> set (ParticleGenerator.particles (newParticleGenerator 50)). life p \<le> 0"
    by (simp add: newParticleGenerator_def Init_def newParticle_def)
  have w: "wf_pool (newParticleGenerator 50)" by (simp add: wf_pool_new)
  from lastUsedParticle_in_pool_bounds [OF r p w amount_new,
      of "1 / 100" sample_ball 1 "(10, 10)" sample_draws] e r p w amount_new
  show ?thesis by blast
qed

section \<open>The exhausted pool\<close>

text \<open>
  Claim C7.  In a pool as \<open>Init\<close> builds it, with \<open>lastUsedParticle\<close> between 0 and the
  pool size, where every particle has life above 0, \<open>firstUnusedParticle\<close> returns
  index 0 and sets \<open>lastUsedParticle\<close> to 0.  When the pool has a slot at all, the next
  spawn overwrites slot 0 with the respawned particle, and a spawn loop of any length
  ends without a fault.
\<close>

theorem exhausted_pool_overwrites_slot_0:
  assumes "wf_pool pg" and "0 \<le> c" and "c \<le> amount pg"
    and "\<forall>p \<in> set (ParticleGenerator.particles pg). 0 < life p"
  shows "firstUnusedParticle pg c = Inr (0, 0) \<and>
    (0 < amount pg \<longrightarrow>
       spawn_loop rnd obj off 0 1 pg c =
         Inr (pg\<lparr>ParticleGenerator.particles := (ParticleGenerator.particles pg)[0 :=
                respawnParticle (fst (rnd 0)) (snd (rnd 0))
                  (ParticleGenerator.particles pg ! 0) obj off]\<rparr>, 0) \<and>
       (\<exists>pg' c'. spawn_loop rnd obj off 0 n pg c = Inr (pg', c') \<and>
          length (ParticleGenerator.particles pg') = length (ParticleGenerator.particles pg)))"
proof -
  let ?ps = "ParticleGenerator.particles pg"
  from all_alive_index [OF assms(4)] assms(1)
  have al: "\<forall>k. 0 \<le> k \<and> k < amount pg \<longrightarrow> 0 < life (?ps ! nat k)"
    by (simp add: wf_pool_def)
  from firstUnusedParticle_result [OF assms(1-3)] al
  have f: "firstUnusedParticle pg c = Inr (0, 0)" by blast
  have "spawn_loop rnd obj off 0 1 pg c =
         Inr (pg\<lparr>ParticleGenerator.particles := ?ps[0 :=
                respawnParticle (fst (rnd 0)) (snd (rnd 0)) (?ps ! 0) obj off]\<rparr>, 0) \<and>
       (\<exists>pg' c'. spawn_loop rnd obj off 0 n pg c = Inr (pg', c') \<and>
          length (ParticleGenerator.particles pg') = length ?ps)"
    if pos: "0 < amount pg"
  proof
    from pos assms(1) have l: "(0::int) < int (length ?ps)" by (simp add: wf_pool_def)
    have z: "(0::int) < 1" "(0::int) \<le> 0" by simp_all
    from spawn_loop_step [OF z(1) f z(2) l, of rnd obj off]
    show "spawn_loop rnd obj off 0 1 pg c =
         Inr (pg\<lparr>ParticleGenerator.particles := ?ps[0 :=
                respawnParticle (fst (rnd 0)) (snd (rnd 0)) (?ps ! 0) obj off]\<rparr>, 0)"
      by (simp add: spawn_loop_done)
    from spawn_loop_ok [where n = n and i = 0 and rnd = rnd and obj = obj and off = off,
        OF refl assms(1) pos assms(2,3)]
    show "\<exists>pg' c'. spawn_loop rnd obj off 0 n pg c = Inr (pg', c') \<and>
          length (ParticleGenerator.particles pg') = length ?ps"
      using assms(1) by (auto simp: wf_pool_def)
  qed
  with f show ?thesis by blast
qed

lemma full_pool2_facts:
  "wf_pool full_pool2" "amount full_pool2 = 2"
  "ParticleGenerator.particles full_pool2 =
     [newParticle (0, 0) (0, 0) (1, 1, 1, 1) (3 / 4),
         newParticle (0, 0) (0, 0) (1, 1, 1, 1) (1 / 2)]"
  by (simp_all add: wf_pool_def full_pool2_def)

text \<open>
  The theorem at the pool of two slots with lives 3/4 and 1/2 and \<open>lastUsedParticle\<close> at
  1: the search returns 0, and the spawn puts the respawned particle, of life 1, into slot 0.
\<close>

theorem exhausted_pool_overwrites_slot_0_witness:
  "wf_pool full_pool2 \<and> (0::int) \<le> 1 \<and> 1 \<le> amount full_pool2 \<and> 0 < amount full_pool2 \<and>
   0 < life (ParticleGenerator.particles full_pool2 ! 0) \<and>
   0 < life (ParticleGenerator.particles full_pool2 ! 1) \<and>
   firstUnusedParticle full_pool2 1 = Inr (0, 0) \<and>
   map life (ParticleGenerator.particles
      (fst (projr (spawn_loop sample_draws sample_ball (10, 10) 0 1 full_pool2 1)))) = [1, 1 / 2] \<and>
   snd (projr (spawn_loop sample_draws sample_ball (10, 10) 0 1 full_pool2 1)) = 0"
proof -
  have a: "\<forall>p \<in> set (ParticleGenerator.particles full_pool2). 0 < life p"
    by (simp add: full_pool2_facts newParticle_def)
  have c: "(0::int) \<le> 1" "1 \<le> amount full_pool2" "0 < amount full_pool2"
    by (simp_all add: full_pool2_facts)
  from exhausted_pool_overwrites_slot_0 [OF full_pool2_facts(1) c(1) c(2) a,
      of sample_draws sample_ball "(10, 10)" 1] c(3)
  have "firstUnusedParticle full_pool2 1 = Inr (0, 0)"
    and s: "spawn_loop sample_draws sample_ball (10, 10) 0 1 full_pool2 1 =
      Inr (full_pool2\<lparr>ParticleGenerator.particles := (ParticleGenerator.particles full_pool2)[0 :=
                respawnParticle (fst (sample_draws 0)) (snd (sample_draws 0))
                  (ParticleGenerator.particles full_pool2 ! 0) sample_ball (10, 10)]\<rparr>, 0)"
    by simp_all
  moreover have "map life (ParticleGenerator.particles
      (fst (projr (spawn_loop sample_draws sample_ball (10, 10) 0 1 full_pool2 1)))) = [1, 1 / 2]"
    by (simp add: s full_pool2_facts newParticle_def respawnParticle_def Let_def)
  moreover have "snd (projr (spawn_loop sample_draws sample_ball (10, 10) 0 1 full_pool2 1)) = 0"
    by (simp add: s)
  ultimately show ?thesis
    using c full_pool2_facts(1) by (simp add: full_pool2_facts newParticle_def)
qed

section \<open>Respawning a particle\<close>

lemma respawnParticle_fields:
  "life (respawnParticle r1 r2 p obj off) = 1"
  "Particle.velocity (respawnParticle r1 r2 p obj off) = Mul (velocity obj) (1 / 10)"
  "Particle.position (respawnParticle r1 r2 p obj off) =
     Add (Add (position obj) (real_of_int r1 / 1000, real_of_int r1 / 1000)) off"
  "Particle.color (respawnParticle r1 r2 p obj off) =
     (real_of_int r2 / 100, real_of_int r2 / 100, real_of_int r2 / 100, 1)"
  by (simp_all add: respawnParticle_def Let_def)

text \<open>
  Claim C6, as the code has it.  With the two draws \<open>r1\<close> and \<open>r2\<close> from 0 to 49,
  \<open>respawnParticle\<close> leaves the particle with life 1, with one tenth of the velocity of
  the emitter, at the position of the emitter plus a jitter \<open>r1 / 1000\<close> on both axes,
  which is at least 0 and at most 1/2, plus the offset, and with the colour
  \<open>(r2 / 100, r2 / 100, r2 / 100, 1)\<close>: a gray between black and 49/100 with alpha 1,
  which is never near white.
\<close>

theorem respawnParticle_postcondition:
  assumes "0 \<le> r1" and "r1 < 50" and "0 \<le> r2" and "r2 < 50"
  shows "life (respawnParticle r1 r2 p obj off) = 1 \<and>
    Particle.velocity (respawnParticle r1 r2 p obj off) =
      (X (velocity obj) / 10, Y (velocity obj) / 10) \<and>
    Particle.position (respawnParticle r1 r2 p obj off) =
      Add (Add (position obj) (real_of_int r1 / 1000, real_of_int r1 / 1000)) off \<and>
    0 \<le> real_of_int r1 / 1000 \<and> real_of_int r1 / 1000 \<le> 1 / 2 \<and>
    Particle.color (respawnParticle r1 r2 p obj off) =
      (real_of_int r2 / 100, real_of_int r2 / 100, real_of_int r2 / 100, 1) \<and>
    0 \<le> real_of_int r2 / 100 \<and> real_of_int r2 / 100 \<le> 49 / 100 \<and>
    \<not> near_white (Particle.color (respawnParticle r1 r2 p obj off))"
proof -
  from assms(1,2) have j: "0 \<le> real_of_int r1" "real_of_int r1 \<le> 49" by simp_all
  from assms(3,4) have g: "0 \<le> real_of_int r2" "real_of_int r2 \<le> 49" by simp_all
  have "\<not> near_white (Particle.color (respawnParticle r1 r2 p obj off))"
    using g by (simp add: respawnParticle_fields near_white_def)
  moreover have "Particle.velocity (respawnParticle r1 r2 p obj off) =
      (X (velocity obj) / 10, Y (velocity obj) / 10)"
    by (simp add: respawnParticle_fields Mul_def)
  ultimately show ?thesis using j g by (simp add: respawnParticle_fields)
qed

text \<open>
  The theorem at the draws 25 and 30 for the ball of the game and the offset of its
  radius: the particle gets life 1, velocity (45, 30), position
  (390 + 0.025 + 10, 290 + 0.025 + 10) and the colour (0.3, 0.3, 0.3, 1).
\<close>

theorem respawnParticle_postcondition_witness:
  "(0::int) \<le> 25 \<and> (25::int) < 50 \<and> (0::int) \<le> 30 \<and> (30::int) < 50 \<and>
   life (respawnParticle 25 30 (newParticle (0, 0) (0, 0) (1, 1, 1, 1) 0) sample_ball (10, 10)) = 1 \<and>
   Particle.velocity
     (respawnParticle 25 30 (newParticle (0, 0) (0, 0) (1, 1, 1, 1) 0) sample_ball (10, 10)) =
     (45, 30) \<and>
   Particle.position
     (respawnParticle 25 30 (newParticle (0, 0) (0, 0) (1, 1, 1, 1) 0) sample_ball (10, 10)) =
     (16001 / 40, 12001 / 40) \<and>
   Particle.color
     (respawnParticle 25 30 (newParticle (0, 0) (0, 0) (1, 1, 1, 1) 0) sample_ball (10, 10)) =
     (3 / 10, 3 / 10, 3 / 10, 1)"
proof -
  have r: "(0::int) \<le> 25" "(25::int) < 50" "(0::int) \<le> 30" "(30::int) < 50" by simp_all
  have b: "velocity sample_ball = (450, 300)" "position sample_ball = (390, 290)"
    by (simp_all add: sample_ball_def newBallObject_def initialBallVelocity_def)
  from respawnParticle_postcondition [OF r,
      of "newParticle (0, 0) (0, 0) (1, 1, 1, 1) 0" sample_ball "(10, 10)"]
  show ?thesis by (simp add: b Add_def X_def Y_def)
qed

text \<open>
  Claim C6 as stated fails in the colour: with the second draw 0 the particle is black,
  which is not near white.
\<close>

theorem respawnParticle_colour_counterexample:
  "Particle.color
     (respawnParticle 25 0 (newParticle (0, 0) (0, 0) (1, 1, 1, 1) 0) sample_ball (10, 10)) =
     (0, 0, 0, 1) \<and>
   \<not> near_white (Particle.color
     (respawnParticle 25 0 (newParticle (0, 0) (0, 0) (1, 1, 1, 1) 0) sample_ball (10, 10)))"
  by (simp add: respawnParticle_fields near_white_def)

section \<open>Spawning into a free pool\<close>

lemma dead_slots_update:
  "j < length ps \<Longrightarrow> life (ps ! j) \<le> 0 \<Longrightarrow> life q = 1 \<Longrightarrow>
   dead_slots (ps[j := q]) + 1 = dead_slots ps"
  using length_filter_update [of j ps "\<lambda>p. life p \<le> 0" q] by (simp add: dead_slots_def)

lemma fresh_slots_update:
  "j < length ps \<Longrightarrow> life (ps ! j) \<le> 0 \<Longrightarrow> life q = 1 \<Longrightarrow>
   fresh_slots (ps[j := q]) = fresh_slots ps + 1"
  using length_filter_update [of j ps "\<lambda>p. life p = 1" q] by (simp add: fresh_slots_def)

lemma dead_slots_pos:
  "0 < dead_slots ps \<Longrightarrow> \<exists>p \<in> set ps. life p \<le> 0"
proof -
  assume "0 < dead_slots ps"
  then have "filter (\<lambda>p. life p \<le> 0) ps \<noteq> []" by (simp add: dead_slots_def)
  then obtain p where "p \<in> set (filter (\<lambda>p. life p \<le> 0) ps)"
    by (cases "filter (\<lambda>p. life p \<le> 0) ps") auto
  then show ?thesis by auto
qed

lemma spawn_loop_counts:
  "nat (n - i) = k \<Longrightarrow> wf_pool pg \<Longrightarrow> 0 \<le> c \<Longrightarrow> c \<le> amount pg \<Longrightarrow>
   \<forall>p \<in> set (ParticleGenerator.particles pg). life p \<le> 0 \<or> life p = 1 \<Longrightarrow>
   k \<le> dead_slots (ParticleGenerator.particles pg) \<Longrightarrow>
   \<exists>pg' c'. spawn_loop rnd obj off i n pg c = Inr (pg', c') \<and> wf_pool pg' \<and>
     amount pg' = amount pg \<and>
     dead_slots (ParticleGenerator.particles pg') + k = dead_slots (ParticleGenerator.particles pg) \<and>
     fresh_slots (ParticleGenerator.particles pg') = fresh_slots (ParticleGenerator.particles pg) + k"
proof (induction k arbitrary: i pg c)
  case 0
  then have "\<not> i < n" by simp
  with 0 show ?case by (simp add: spawn_loop_done)
next
  case (Suc k)
  let ?ps = "ParticleGenerator.particles pg"
  from Suc.prems have lt: "i < n" by simp
  from Suc.prems(6) have "0 < dead_slots ?ps" by simp
  from dead_member_index [OF dead_slots_pos [OF this]] Suc.prems(2)
  have ex: "\<exists>k. 0 \<le> k \<and> k < amount pg \<and> life (?ps ! nat k) \<le> 0"
    by (simp add: wf_pool_def)
  from firstUnusedParticle_result [OF Suc.prems(2-4)] ex obtain u where
    u: "firstUnusedParticle pg c = Inr (u, u)" "0 \<le> u" "u < amount pg" "life (?ps ! nat u) \<le> 0"
    by blast
  let ?q = "respawnParticle (fst (rnd i)) (snd (rnd i)) (?ps ! nat u) obj off"
  let ?pg1 = "pg\<lparr>ParticleGenerator.particles := ?ps[nat u := ?q]\<rparr>"
  from u Suc.prems(2) have ul: "u < int (length ?ps)" "nat u < length ?ps"
    by (simp_all add: wf_pool_def)
  have q: "life ?q = 1" by (simp add: respawnParticle_fields)
  have st: "spawn_loop rnd obj off i n pg c = spawn_loop rnd obj off (i + 1) n ?pg1 u"
    using lt u(1) u(2) ul(1) by (rule spawn_loop_step)
  have wf1: "wf_pool ?pg1" "u \<le> amount ?pg1" "amount ?pg1 = amount pg"
    using Suc.prems u by (simp_all add: wf_pool_def)
  have inv1: "\<forall>p \<in> set (ParticleGenerator.particles ?pg1). life p \<le> 0 \<or> life p = 1"
  proof
    fix p assume "p \<in> set (ParticleGenerator.particles ?pg1)"
    then have "p \<in> insert ?q (set ?ps)"
      using set_update_subset_insert [of ?ps "nat u" ?q] by auto
    then show "life p \<le> 0 \<or> life p = 1" using q Suc.prems(5) by auto
  qed
  have d1: "dead_slots (ParticleGenerator.particles ?pg1) + 1 = dead_slots ?ps"
    using dead_slots_update [OF ul(2) u(4) q] by simp
  have f1: "fresh_slots (ParticleGenerator.particles ?pg1) = fresh_slots ?ps + 1"
    using fresh_slots_update [OF ul(2) u(4) q] by simp
  have k: "nat (n - (i + 1)) = k" using Suc.prems(1) by simp
  have kd: "k \<le> dead_slots (ParticleGenerator.particles ?pg1)"
    using d1 Suc.prems(6) by simp
  from Suc.IH [OF k wf1(1) u(2) wf1(2) inv1 kd] obtain pg' c' where
    r: "spawn_loop rnd obj off (i + 1) n ?pg1 u = Inr (pg', c')" "wf_pool pg'"
       "amount pg' = amount ?pg1"
       "dead_slots (ParticleGenerator.particles pg') + k =
          dead_slots (ParticleGenerator.particles ?pg1)"
       "fresh_slots (ParticleGenerator.particles pg') =
          fresh_slots (ParticleGenerator.particles ?pg1) + k"
    by blast
  from r d1 f1 st wf1(3) show ?case by simp
qed

lemma all_dead_counts:
  "\<forall>p \<in> set ps. life p \<le> 0 \<Longrightarrow> dead_slots ps = length ps \<and> fresh_slots ps = 0"
  by (induction ps) (auto simp: dead_slots_def fresh_slots_def)

lemma life_age: "life (age dt p) = life p - dt"
  by (cases "Particle.color p") (simp add: age_def Let_def split: prod.splits)

text \<open>
  Claim C2, as the code has it.  Take a pool of \<open>M\<close> slots as \<open>Init\<close> builds it, all with
  life at most 0, \<open>lastUsedParticle\<close> between 0 and \<open>M\<close>, and \<open>N < M\<close>.  The spawn loop
  of \<open>Update\<close> ends without a fault; right after it exactly \<open>N\<close> slots have life 1 and
  the other \<open>M - N\<close> have life at most 0.  The second loop of the same call then takes
  \<open>deltaTime\<close> from the life of every slot, so when \<open>Update\<close> returns the lives are those
  values minus \<open>deltaTime\<close>.
\<close>

theorem spawn_into_free_pool:
  assumes "wf_pool pg" and "amount pg = int M" and "0 \<le> c" and "c \<le> amount pg"
    and "\<forall>p \<in> set (ParticleGenerator.particles pg). life p \<le> 0" and "N < M"
  shows "\<exists>pg1 c1. spawn_loop rnd obj off 0 (int N) pg c = Inr (pg1, c1) \<and>
     length (ParticleGenerator.particles pg1) = M \<and>
     fresh_slots (ParticleGenerator.particles pg1) = N \<and>
     dead_slots (ParticleGenerator.particles pg1) = M - N \<and>
     (\<exists>pg2. ParticleGenerator_Update deltaTime obj (int N) off rnd pg c = Inr (pg2, c1) \<and>
        map life (ParticleGenerator.particles pg2) =
        map (\<lambda>p. life p - deltaTime) (ParticleGenerator.particles pg1))"
proof -
  let ?ps = "ParticleGenerator.particles pg"
  from assms(1,2) have len: "length ?ps = M" by (simp add: wf_pool_def)
  from all_dead_counts [OF assms(5)] len
  have cnt: "dead_slots ?ps = M" "fresh_slots ?ps = 0" by simp_all
  have inv: "\<forall>p \<in> set ?ps. life p \<le> 0 \<or> life p = 1" using assms(5) by blast
  have k: "nat (int N - 0) = N" by simp
  have nd: "N \<le> dead_slots ?ps" using cnt(1) assms(6) by simp
  from spawn_loop_counts [OF k assms(1,3,4) inv nd, of rnd obj off] obtain pg1 c1 where
    s: "spawn_loop rnd obj off 0 (int N) pg c = Inr (pg1, c1)" "wf_pool pg1"
       "amount pg1 = amount pg"
       "dead_slots (ParticleGenerator.particles pg1) + N = dead_slots ?ps"
       "fresh_slots (ParticleGenerator.particles pg1) = fresh_slots ?ps + N"
    by blast
  let ?pg2 = "pg1\<lparr>ParticleGenerator.particles :=
                   map (age deltaTime) (ParticleGenerator.particles pg1)\<rparr>"
  have u: "ParticleGenerator_Update deltaTime obj (int N) off rnd pg c = Inr (?pg2, c1)"
    using s(1) age_loop_all [OF s(2), of deltaTime] by (simp add: ParticleGenerator_Update_def)
  have m: "map life (ParticleGenerator.particles ?pg2) =
           map (\<lambda>p. life p - deltaTime) (ParticleGenerator.particles pg1)"
    by (simp add: life_age)
  have l1: "length (ParticleGenerator.particles pg1) = M"
    using s(2,3) assms(2) by (simp add: wf_pool_def)
  have "dead_slots (ParticleGenerator.particles pg1) = M - N" using s(4) cnt(1) by simp
  moreover have "fresh_slots (ParticleGenerator.particles pg1) = N" using s(5) cnt(2) by simp
  ultimately show ?thesis using s(1) l1 u m by blast
qed

lemma free_pool2_facts:
  "wf_pool free_pool2" "amount free_pool2 = 2"
  "ParticleGenerator.particles free_pool2 =
     [newParticle (0, 0) (0, 0) (1, 1, 1, 1) 0, newParticle (0, 0) (0, 0) (1, 1, 1, 1) 0]"
  by (simp_all add: wf_pool_def free_pool2_def newParticleGenerator_def Init_def numeral_2_eq_2)

lemma firstUnusedParticle_free_pool2: "firstUnusedParticle free_pool2 0 = Inr (0, 0)"
  by (simp add: firstUnusedParticle_def scan.simps [of _ 0 2] free_pool2_facts newParticle_def)

lemma spawn_one_free_pool2:
  "spawn_loop sample_draws sample_ball (10, 10) 0 1 free_pool2 0 =
   Inr (free_pool2\<lparr>ParticleGenerator.particles :=
          [respawnParticle 25 30 (newParticle (0, 0) (0, 0) (1, 1, 1, 1) 0) sample_ball (10, 10),
           newParticle (0, 0) (0, 0) (1, 1, 1, 1) 0]\<rparr>, 0)"
proof -
  have z: "(0::int) < 1" "(0::int) \<le> 0" "(0::int) < int (length (ParticleGenerator.particles free_pool2))"
    by (simp_all add: free_pool2_facts)
  from spawn_loop_step [OF z(1) firstUnusedParticle_free_pool2 z(2) z(3), of sample_draws sample_ball "(10, 10)"]
  show ?thesis by (simp add: spawn_loop_done free_pool2_facts sample_draws_def)
qed

text \<open>
  The theorem at the free pool of two slots, one spawn and a frame of 1/2: the spawn
  loop returns a pool with one slot of life 1 and one of life at most 0, and \<open>Update\<close>
  returns.
\<close>

theorem spawn_into_free_pool_witness:
  "wf_pool free_pool2 \<and> amount free_pool2 = int 2 \<and> (0::int) \<le> 0 \<and> 0 \<le> amount free_pool2 \<and>
   life (ParticleGenerator.particles free_pool2 ! 0) \<le> 0 \<and>
   life (ParticleGenerator.particles free_pool2 ! 1) \<le> 0 \<and>
   length (ParticleGenerator.particles free_pool2) = 2 \<and> (1::nat) < 2 \<and>
   (\<exists>pg1 c1. spawn_loop sample_draws sample_ball (10, 10) 0 (int 1) free_pool2 0 = Inr (pg1, c1) \<and>
      fresh_slots (ParticleGenerator.particles pg1) = 1 \<and>
      dead_slots (ParticleGenerator.particles pg1) = 2 - 1 \<and>
      (\<exists>pg2. ParticleGenerator_Update (1 / 2) sample_ball (int 1) (10, 10) sample_draws
                free_pool2 0 = Inr (pg2, c1)))"
proof -
  have a: "amount free_pool2 = int 2" "(0::int) \<le> 0" "0 \<le> amount free_pool2" "(1::nat) < 2"
    by (simp_all add: free_pool2_facts)
  have d: "\<forall>p \<in> set (ParticleGenerator.particles free_pool2). life p \<le> 0"
    by (simp add: free_pool2_facts newParticle_def)
  from spawn_into_free_pool [OF free_pool2_facts(1) a(1) a(2) a(3) d a(4),
      of sample_draws sample_ball "(10, 10)" "1 / 2"]
  have "\<exists>pg1 c1. spawn_loop sample_draws sample_ball (10, 10) 0 (int 1) free_pool2 0 = Inr (pg1, c1) \<and>
      fresh_slots (ParticleGenerator.particles pg1) = 1 \<and>
      dead_slots (ParticleGenerator.particles pg1) = 2 - 1 \<and>
      (\<exists>pg2. ParticleGenerator_Update (1 / 2) sample_ball (int 1) (10, 10) sample_draws
                free_pool2 0 = Inr (pg2, c1))"
    by blast
  then show ?thesis using a free_pool2_facts(1) by (simp add: free_pool2_facts newParticle_def)
qed

text \<open>
  Claim C2 as stated fails for the state in which \<open>Update\<close> returns: with one spawn
  into the free pool of two slots and a frame of 1/2, \<open>Update\<close> returns a pool whose
  lives are 1/2 and -1/2, so no slot has life 1.
\<close>

theorem Update_ages_spawned_counterexample:
  "\<not> isl (ParticleGenerator_Update (1 / 2) sample_ball 1 (10, 10) sample_draws free_pool2 0) \<and>
   map life (ParticleGenerator.particles (fst (projr
     (ParticleGenerator_Update (1 / 2) sample_ball 1 (10, 10) sample_draws free_pool2 0)))) =
     [1 / 2, - 1 / 2] \<and>
   fresh_slots (ParticleGenerator.particles (fst (projr
     (ParticleGenerator_Update (1 / 2) sample_ball 1 (10, 10) sample_draws free_pool2 0)))) = 0"
proof -
  let ?pg1 = "free_pool2\<lparr>ParticleGenerator.particles :=
          [respawnParticle 25 30 (newParticle (0, 0) (0, 0) (1, 1, 1, 1) 0) sample_ball (10, 10),
           newParticle (0, 0) (0, 0) (1, 1, 1, 1) 0]\<rparr>"
  have w: "wf_pool ?pg1" by (simp add: wf_pool_def free_pool2_facts)
  have u: "ParticleGenerator_Update (1 / 2) sample_ball 1 (10, 10) sample_draws free_pool2 0 =
    Inr (?pg1\<lparr>ParticleGenerator.particles :=
           map (age (1 / 2)) (ParticleGenerator.particles ?pg1)\<rparr>, 0)"
    using spawn_one_free_pool2 age_loop_all [OF w, of "1 / 2"]
    by (simp add: ParticleGenerator_Update_def)
  show ?thesis
    by (simp add: u life_age respawnParticle_fields newParticle_def fresh_slots_def)
qed

section \<open>One frame of the active game\<close>

lemma Move_size: "size_v (Move dt wd ht b) = size_v b"
  by (simp add: Move_def Let_def)

lemma DoCollisions_frame:
  assumes "DoCollisions (g, gl) = (g2, gl2)"
  shows "state g2 = state g" "width g2 = width g" "height g2 = height g"
    "paddle1Score g2 = paddle1Score g" "paddle2Score g2 = paddle2Score g"
    "paddle1 g2 = paddle1 g" "paddle2 g2 = paddle2 g"
    "position (ball g2) = position (ball g)" "size_v (ball g2) = size_v (ball g)"
    "Game.particles g2 = Game.particles g" "lastUsedParticle gl2 = lastUsedParticle gl"
  using assms by (auto simp: DoCollisions_def split: if_splits)

lemma reduceShakeTime_frame:
  assumes "reduceShakeTime dt (g, gl) = (g3, gl3)"
  shows "state g3 = state g" "width g3 = width g" "height g3 = height g"
    "paddle1Score g3 = paddle1Score g" "paddle2Score g3 = paddle2Score g"
    "paddle1 g3 = paddle1 g" "paddle2 g3 = paddle2 g" "ball g3 = ball g"
    "Game.particles g3 = Game.particles g" "lastUsedParticle gl3 = lastUsedParticle gl"
  using assms by (auto simp: reduceShakeTime_def Let_def split: if_splits)

lemma beforeLossCheck_result:
  assumes "pool_ready (g, gl)"
  shows "\<exists>g3 gl3. beforeLossCheck dt rnd (g, gl) = Inr (g3, gl3) \<and>
     state g3 = state g \<and> width g3 = width g \<and> height g3 = height g \<and>
     paddle1Score g3 = paddle1Score g \<and> paddle2Score g3 = paddle2Score g \<and>
     paddle1 g3 = paddle1 g \<and> paddle2 g3 = paddle2 g \<and>
     position (ball g3) = position (Move dt (width g) (height g) (ball g)) \<and>
     size_v (ball g3) = size_v (ball g) \<and> pool_ready (g3, gl3) \<and>
     amount (Game.particles g3) = amount (Game.particles g)"
proof -
  let ?g1 = "g\<lparr>ball := Move dt (width g) (height g) (ball g)\<rparr>"
  obtain g2 gl2 where d: "DoCollisions (?g1, gl) = (g2, gl2)" by (cases "DoCollisions (?g1, gl)")
  note f2 = DoCollisions_frame [OF d]
  from assms f2 have p: "wf_pool (Game.particles g2)" "0 < amount (Game.particles g2)"
      "0 \<le> lastUsedParticle gl2" "lastUsedParticle gl2 \<le> amount (Game.particles g2)"
    by (simp_all add: pool_ready_def)
  from ParticleGenerator_Update_ok [OF p, of dt "ball g2" 1 "(radius (ball g2), radius (ball g2))" rnd]
  obtain pg c where u: "ParticleGenerator_Update dt (ball g2) 1 (radius (ball g2), radius (ball g2))
        rnd (Game.particles g2) (lastUsedParticle gl2) = Inr (pg, c)"
      "wf_pool pg" "amount pg = amount (Game.particles g2)" "0 \<le> c" "c < amount (Game.particles g2)"
    by auto
  obtain g3 gl3 where r: "reduceShakeTime dt (g2\<lparr>Game.particles := pg\<rparr>, gl2\<lparr>lastUsedParticle := c\<rparr>) = (g3, gl3)"
    by (cases "reduceShakeTime dt (g2\<lparr>Game.particles := pg\<rparr>, gl2\<lparr>lastUsedParticle := c\<rparr>)")
  note f3 = reduceShakeTime_frame [OF r]
  have b: "beforeLossCheck dt rnd (g, gl) = Inr (g3, gl3)"
    using d u(1) r by (simp add: beforeLossCheck_def Let_def)
  have "pool_ready (g3, gl3)" using f3 u f2 assms by (simp add: pool_ready_def)
  moreover have "amount (Game.particles g3) = amount (Game.particles g)" using f3 u f2 by simp
  moreover have "position (ball g3) = position (Move dt (width g) (height g) (ball g))"
    using f3 f2 by simp
  moreover have "size_v (ball g3) = size_v (ball g)" using f3 f2 by (simp add: Move_size)
  ultimately show ?thesis using b f3 f2 by simp
qed

lemma Game_Update_active:
  assumes "state g = gameActive" and "beforeLossCheck dt rnd (g, gl) = Inr (g3, gl3)"
  shows "Game_Update dt rnd (g, gl) = Inr (checkWin (checkLoss g3), gl3)"
  using assms by (simp add: Game_Update_def)

lemma Game_Update_inactive:
  "state g \<noteq> gameActive \<Longrightarrow> Game_Update dt rnd (g, gl) = Inr (g, gl)"
  by (simp add: Game_Update_def)

lemma checkWin_frame:
  "ball (checkWin g) = ball g" "paddle1Score (checkWin g) = paddle1Score g"
  "paddle2Score (checkWin g) = paddle2Score g" "Game.particles (checkWin g) = Game.particles g"
  "paddle1 (checkWin g) = paddle1 g" "paddle2 (checkWin g) = paddle2 g"
  by (simp_all add: checkWin_def)

lemma checkWin_state:
  "state (checkWin g) =
     (if maxScore \<le>s paddle1Score g \<or> maxScore \<le>s paddle2Score g then gameWin else state g)"
  by (simp add: checkWin_def)

lemma checkLoss_frame:
  "state (checkLoss g) = state g" "Game.particles (checkLoss g) = Game.particles g"
  "paddle1 (checkLoss g) = paddle1 g" "paddle2 (checkLoss g) = paddle2 g"
  by (simp_all add: checkLoss_def)

lemma checkLoss_left:
  assumes "X (position (ball g)) \<le> 0"
  shows "paddle2Score (checkLoss g) = paddle2Score g + 1"
    "paddle1Score (checkLoss g) = paddle1Score g"
    "position (ball (checkLoss g)) =
       (float32_of_int (int_quo (width g) 2), float32_of_int (int_quo (height g) 2))"
    "velocity (ball (checkLoss g)) = (- 450, - 300)"
  using assms
  by (simp_all add: checkLoss_def BallObject_Reset_def Mul_def initialBallVelocity_def X_def Y_def)

section \<open>Scoring\<close>

lemma go_int_succ:
  fixes n :: go_int
  assumes "sint n < 2 ^ 63 - 1"
  shows "sint (n + 1) = sint n + 1"
proof -
  have "- (2 ^ 63) \<le> sint n" using sint_ge [of n] by simp
  then have "signed_take_bit 63 (sint n + 1) = sint n + 1"
    using assms by (intro signed_take_bit_int_eq_self) simp_all
  then show ?thesis by (simp add: sint_word_ariths)
qed

lemma sample_game_ready: "pool_ready (sample_game, sample_globals)"
  by (simp add: pool_ready_def sample_game_def sample_globals_def newGame_Init_def
        wf_pool_new amount_new)

lemma sample_game_facts:
  "state sample_game = gameActive" "width sample_game = 800" "height sample_game = 600"
  "ball sample_game = newBallObject (- 30, 290) 10 (- 450, - 300)"
  "paddle1Score sample_game = 0" "paddle2Score sample_game = 9"
  by (simp_all add: sample_game_def newGame_Init_def)

lemma window_centre:
  "float32_of_int (int_quo 800 2) = 400" "float32_of_int (int_quo 600 2) = 300"
  by (simp_all add: float32_of_int_def int_quo_def)

lemma sample_game_Move_x:
  "X (position (Move (1 / 100) (width sample_game) (height sample_game) (ball sample_game))) \<le> 0"
  by (simp add: sample_game_facts Move_def newBallObject_def Add_def Mul_def X_def Y_def Let_def
        float32_of_int_def)

text \<open>
  Claim C1, as the code has it.  In an active game whose particle pool is as \<open>Init\<close>
  left it, when the position the ball has after \<open>Move\<close> has x at most 0, \<open>Update\<close>
  returns without a fault, the score of paddle 2 is one more (as a 64-bit integer, and
  so as a number unless it was the largest one), the score of paddle 1 is unchanged, the
  ball is at \<open>(float32(width / 2), float32(height / 2))\<close> and its velocity is the
  initial velocity with both components negated, that is (-450, -300).
\<close>

theorem left_exit_scores_for_paddle2:
  assumes "state g = gameActive" and "pool_ready (g, gl)"
    and "X (position (Move deltaTime (width g) (height g) (ball g))) \<le> 0"
  shows "\<exists>g' gl'. Game_Update deltaTime rnd (g, gl) = Inr (g', gl') \<and>
     paddle2Score g' = paddle2Score g + 1 \<and>
     (sint (paddle2Score g) < 2 ^ 63 - 1 \<longrightarrow>
        sint (paddle2Score g') = sint (paddle2Score g) + 1) \<and>
     paddle1Score g' = paddle1Score g \<and>
     position (ball g') =
       (float32_of_int (int_quo (width g) 2), float32_of_int (int_quo (height g) 2)) \<and>
     velocity (ball g') = (- X initialBallVelocity, - Y initialBallVelocity) \<and>
     velocity (ball g') = (- 450, - 300)"
proof -
  from beforeLossCheck_result [OF assms(2), of deltaTime rnd] obtain g3 gl3 where
    b: "beforeLossCheck deltaTime rnd (g, gl) = Inr (g3, gl3)"
       "width g3 = width g" "height g3 = height g"
       "paddle1Score g3 = paddle1Score g" "paddle2Score g3 = paddle2Score g"
       "position (ball g3) = position (Move deltaTime (width g) (height g) (ball g))"
    by blast
  from b(6) assms(3) have x: "X (position (ball g3)) \<le> 0" by simp
  have u: "Game_Update deltaTime rnd (g, gl) = Inr (checkWin (checkLoss g3), gl3)"
    using assms(1) b(1) by (rule Game_Update_active)
  have "velocity (ball (checkWin (checkLoss g3))) = (- X initialBallVelocity, - Y initialBallVelocity)"
    by (simp add: checkWin_frame checkLoss_left [OF x] initialBallVelocity_def X_def Y_def)
  then show ?thesis
    using u b(2-5) by (simp add: checkWin_frame checkLoss_left [OF x] go_int_succ)
qed

text \<open>
  The theorem at the active game in which paddle 2 has 9 points and the ball, at
  x = -30 moving left, stays left of 0 in a frame of 1/100: the score becomes 10, the
  ball is put at (400, 300) with velocity (-450, -300).
\<close>

theorem left_exit_scores_for_paddle2_witness:
  "state sample_game = gameActive \<and> pool_ready (sample_game, sample_globals) \<and>
   X (position (Move (1 / 100) (width sample_game) (height sample_game) (ball sample_game))) \<le> 0 \<and>
   sint (paddle2Score sample_game) < 2 ^ 63 - 1 \<and>
   (\<exists>g' gl'. Game_Update (1 / 100) sample_draws (sample_game, sample_globals) = Inr (g', gl') \<and>
      paddle2Score g' = 10 \<and> sint (paddle2Score g') = 10 \<and> paddle1Score g' = 0 \<and>
      position (ball g') = (400, 300) \<and> velocity (ball g') = (- 450, - 300))"
proof -
  have s: "sint (paddle2Score sample_game) < 2 ^ 63 - 1" by (simp add: sample_game_facts)
  from left_exit_scores_for_paddle2
    [OF sample_game_facts(1) sample_game_ready sample_game_Move_x, of sample_draws]
  have "\<exists>g' gl'. Game_Update (1 / 100) sample_draws (sample_game, sample_globals) = Inr (g', gl') \<and>
      paddle2Score g' = 10 \<and> sint (paddle2Score g') = 10 \<and> paddle1Score g' = 0 \<and>
      position (ball g') = (400, 300) \<and> velocity (ball g') = (- 450, - 300)"
    by (simp add: sample_game_facts window_centre) blast
  then show ?thesis
    using sample_game_facts(1) sample_game_ready sample_game_Move_x s by blast
qed

text \<open>
  Claim C1 as stated fails in the y component of the velocity: in the same frame of
  the same game the ball leaves on the left and is served with velocity (-450, -300),
  whose y component is not that of the initial velocity (450, 300).
\<close>

theorem serve_negates_y_counterexample:
  "state sample_game = gameActive \<and>
   X (position (Move (1 / 100) (width sample_game) (height sample_game) (ball sample_game))) \<le> 0 \<and>
   \<not> isl (Game_Update (1 / 100) sample_draws (sample_game, sample_globals)) \<and>
   velocity (ball (fst (projr (Game_Update (1 / 100) sample_draws (sample_game, sample_globals))))) =
     (- 450, - 300) \<and>
   Y (velocity (ball (fst (projr (Game_Update (1 / 100) sample_draws (sample_game, sample_globals))))))
     \<noteq> Y initialBallVelocity"
proof -
  from beforeLossCheck_result [OF sample_game_ready, of "1 / 100" sample_draws] obtain g3 gl3 where
    b: "beforeLossCheck (1 / 100) sample_draws (sample_game, sample_globals) = Inr (g3, gl3)"
       "position (ball g3) =
          position (Move (1 / 100) (width sample_game) (height sample_game) (ball sample_game))"
    by blast
  from b(2) sample_game_Move_x have x: "X (position (ball g3)) \<le> 0" by simp
  have u: "Game_Update (1 / 100) sample_draws (sample_game, sample_globals) =
           Inr (checkWin (checkLoss g3), gl3)"
    using sample_game_facts(1) b(1) by (rule Game_Update_active)
  show ?thesis
    using sample_game_facts(1) sample_game_Move_x
    by (simp add: u checkWin_frame checkLoss_left [OF x] initialBallVelocity_def Y_def)
qed

section \<open>The end of a match\<close>

lemma maxScore_sle: "(maxScore \<le>s n) = (10 \<le> sint n)"
  by (simp add: maxScore_def word_sle_eq)

lemma ProcessInput_win:
  "state g = gameWin \<Longrightarrow>
   ProcessInput dt g =
     (if pressed g KeyEnter
      then g\<lparr>state := gameMenu, processedKeys := (processedKeys g)[nat KeyEnter := True]\<rparr>
      else g)"
  by (simp add: ProcessInput_def)

lemma ProcessInput_menu:
  "state g = gameMenu \<Longrightarrow>
   ProcessInput dt g =
     (if pressed g KeyEnter
      then (Game_Reset g)\<lparr>state := gameActive,
                           processedKeys := (processedKeys g)[nat KeyEnter := True]\<rparr>
      else g)"
  by (simp add: ProcessInput_def)

text \<open>
  Claim C5.  In an active game whose particle pool is as \<open>Init\<close> left it, \<open>Update\<close>
  returns without a fault, and the state it leaves is \<open>gameWin\<close> when the score of either
  player is then at least 10 (\<open>maxScore\<close>), by whatever margin, and \<open>gameActive\<close>
  otherwise.  In the state \<open>gameWin\<close>, \<open>Update\<close> changes nothing at all, so no later call
  makes the transition again, and \<open>ProcessInput\<close> leaves the state \<open>gameWin\<close> unless Enter
  is down, when it sets \<open>gameMenu\<close>.
\<close>

theorem win_transition_once:
  "(state g = gameActive \<and> pool_ready (g, gl) \<longrightarrow>
      (\<exists>g' gl'. Game_Update deltaTime rnd (g, gl) = Inr (g', gl') \<and>
         state g' = (if 10 \<le> sint (paddle1Score g') \<or> 10 \<le> sint (paddle2Score g')
                     then gameWin else gameActive))) \<and>
   (state g = gameWin \<longrightarrow>
      Game_Update deltaTime rnd (g, gl) = Inr (g, gl) \<and>
      state (ProcessInput deltaTime g) = (if pressed g KeyEnter then gameMenu else gameWin))"
proof (intro conjI impI)
  assume a: "state g = gameActive \<and> pool_ready (g, gl)"
  then have act: "state g = gameActive" and rdy: "pool_ready (g, gl)" by simp_all
  from beforeLossCheck_result [OF rdy, of deltaTime rnd] obtain g3 gl3 where
    b: "beforeLossCheck deltaTime rnd (g, gl) = Inr (g3, gl3)" "state g3 = state g"
    by blast
  have u: "Game_Update deltaTime rnd (g, gl) = Inr (checkWin (checkLoss g3), gl3)"
    using act b(1) by (rule Game_Update_active)
  have "state (checkWin (checkLoss g3)) =
     (if 10 \<le> sint (paddle1Score (checkWin (checkLoss g3))) \<or>
         10 \<le> sint (paddle2Score (checkWin (checkLoss g3)))
      then gameWin else gameActive)"
    using b(2) act by (simp add: checkWin_state checkWin_frame checkLoss_frame maxScore_sle)
  with u show "\<exists>g' gl'. Game_Update deltaTime rnd (g, gl) = Inr (g', gl') \<and>
         state g' = (if 10 \<le> sint (paddle1Score g') \<or> 10 \<le> sint (paddle2Score g')
                     then gameWin else gameActive)"
    by blast
next
  assume w: "state g = gameWin"
  then show "Game_Update deltaTime rnd (g, gl) = Inr (g, gl)"
    by (simp add: Game_Update_inactive)
  from w show "state (ProcessInput deltaTime g) = (if pressed g KeyEnter then gameMenu else gameWin)"
    by (simp add: ProcessInput_win)
qed

lemma won_game_facts:
  "state won_game = gameWin" "pressed won_game KeyEnter"
  "paddle1Score won_game = 4" "paddle2Score won_game = 10"
  by (simp_all add: won_game_def pressed_def)

text \<open>
  The theorem at the active game in which paddle 2 has 9 points and the ball leaves
  on the left: \<open>Update\<close> returns a game with 10 points for paddle 2 in the state
  \<open>gameWin\<close>.  And at the finished match with Enter down: \<open>Update\<close> returns it as it
  was, and \<open>ProcessInput\<close> sets \<open>gameMenu\<close>.
\<close>

theorem win_transition_once_witness:
  "state sample_game = gameActive \<and> pool_ready (sample_game, sample_globals) \<and>
   (\<exists>g' gl'. Game_Update (1 / 100) sample_draws (sample_game, sample_globals) = Inr (g', gl') \<and>
      sint (paddle2Score g') = 10 \<and> state g' = gameWin) \<and>
   state won_game = gameWin \<and> pressed won_game KeyEnter \<and>
   Game_Update (1 / 100) sample_draws (won_game, sample_globals) = Inr (won_game, sample_globals) \<and>
   state (ProcessInput (1 / 100) won_game) = gameMenu"
proof -
  from win_transition_once [of sample_game sample_globals "1 / 100" sample_draws]
    sample_game_facts(1) sample_game_ready
  obtain g' gl' where
    t: "Game_Update (1 / 100) sample_draws (sample_game, sample_globals) = Inr (g', gl')"
       "state g' = (if 10 \<le> sint (paddle1Score g') \<or> 10 \<le> sint (paddle2Score g')
                    then gameWin else gameActive)"
    by blast
  from beforeLossCheck_result [OF sample_game_ready, of "1 / 100" sample_draws] obtain g3 gl3 where
    b: "beforeLossCheck (1 / 100) sample_draws (sample_game, sample_globals) = Inr (g3, gl3)"
       "paddle2Score g3 = paddle2Score sample_game"
       "position (ball g3) =
          position (Move (1 / 100) (width sample_game) (height sample_game) (ball sample_game))"
    by blast
  from b(3) sample_game_Move_x have x: "X (position (ball g3)) \<le> 0" by simp
  have "Game_Update (1 / 100) sample_draws (sample_game, sample_globals) =
        Inr (checkWin (checkLoss g3), gl3)"
    using sample_game_facts(1) b(1) by (rule Game_Update_active)
  with t(1) have "g' = checkWin (checkLoss g3)" by simp
  then have s: "sint (paddle2Score g') = 10"
    using b(2) by (simp add: checkWin_frame checkLoss_left [OF x] sample_game_facts)
  with t(2) have "state g' = gameWin" by simp
  with t(1) s have 1: "\<exists>g' gl'. Game_Update (1 / 100) sample_draws (sample_game, sample_globals) =
      Inr (g', gl') \<and> sint (paddle2Score g') = 10 \<and> state g' = gameWin"
    by blast
  from win_transition_once [of won_game sample_globals "1 / 100" sample_draws] won_game_facts(1,2)
  have 2: "Game_Update (1 / 100) sample_draws (won_game, sample_globals) =
             Inr (won_game, sample_globals) \<and>
           state (ProcessInput (1 / 100) won_game) = gameMenu"
    by simp
  from 1 2 sample_game_facts(1) sample_game_ready won_game_facts(1,2) show ?thesis by blast
qed

section \<open>Confirming in the menu and after a win\<close>

text \<open>
  Claim C10.  Enter in the state \<open>gameMenu\<close> leaves the game in \<open>gameActive\<close> with both
  scores 0, both paddles at the positions \<open>Init\<close> gave them for this window, and the ball
  at \<open>(float32(width / 2), float32(height / 2))\<close> with the initial velocity.  Enter in
  the state \<open>gameWin\<close> only sets the state to \<open>gameMenu\<close> and marks the key as processed:
  the scores, the paddles, the ball and the particles are as before.
\<close>

theorem confirm_resets_in_menu_only:
  "(state g = gameMenu \<and> pressed g KeyEnter \<longrightarrow>
      state (ProcessInput deltaTime g) = gameActive \<and>
      paddle1Score (ProcessInput deltaTime g) = 0 \<and>
      paddle2Score (ProcessInput deltaTime g) = 0 \<and>
      position (paddle1 (ProcessInput deltaTime g)) =
        position (paddle1 (newGame_Init (width g) (height g))) \<and>
      position (paddle2 (ProcessInput deltaTime g)) =
        position (paddle2 (newGame_Init (width g) (height g))) \<and>
      position (ball (ProcessInput deltaTime g)) =
        (float32_of_int (int_quo (width g) 2), float32_of_int (int_quo (height g) 2)) \<and>
      velocity (ball (ProcessInput deltaTime g)) = initialBallVelocity) \<and>
   (state g = gameWin \<and> pressed g KeyEnter \<longrightarrow>
      ProcessInput deltaTime g =
        g\<lparr>state := gameMenu, processedKeys := (processedKeys g)[nat KeyEnter := True]\<rparr> \<and>
      state (ProcessInput deltaTime g) = gameMenu \<and>
      paddle1Score (ProcessInput deltaTime g) = paddle1Score g \<and>
      paddle2Score (ProcessInput deltaTime g) = paddle2Score g \<and>
      paddle1 (ProcessInput deltaTime g) = paddle1 g \<and>
      paddle2 (ProcessInput deltaTime g) = paddle2 g \<and>
      ball (ProcessInput deltaTime g) = ball g \<and>
      Game.particles (ProcessInput deltaTime g) = Game.particles g)"
proof (intro conjI impI)
  assume m: "state g = gameMenu \<and> pressed g KeyEnter"
  then have p: "ProcessInput deltaTime g =
      (Game_Reset g)\<lparr>state := gameActive, processedKeys := (processedKeys g)[nat KeyEnter := True]\<rparr>"
    by (simp add: ProcessInput_menu)
  show "state (ProcessInput deltaTime g) = gameActive" by (simp add: p)
  show "paddle1Score (ProcessInput deltaTime g) = 0" by (simp add: p Game_Reset_def)
  show "paddle2Score (ProcessInput deltaTime g) = 0" by (simp add: p Game_Reset_def)
  show "position (paddle1 (ProcessInput deltaTime g)) =
        position (paddle1 (newGame_Init (width g) (height g)))"
    by (simp add: p Game_Reset_def GameObject_Reset_def newGame_Init_def newGameObject_def)
  show "position (paddle2 (ProcessInput deltaTime g)) =
        position (paddle2 (newGame_Init (width g) (height g)))"
    by (simp add: p Game_Reset_def GameObject_Reset_def newGame_Init_def newGameObject_def)
  show "position (ball (ProcessInput deltaTime g)) =
        (float32_of_int (int_quo (width g) 2), float32_of_int (int_quo (height g) 2))"
    by (simp add: p Game_Reset_def BallObject_Reset_def)
  show "velocity (ball (ProcessInput deltaTime g)) = initialBallVelocity"
    by (simp add: p Game_Reset_def BallObject_Reset_def)
next
  assume w: "state g = gameWin \<and> pressed g KeyEnter"
  then show p: "ProcessInput deltaTime g =
        g\<lparr>state := gameMenu, processedKeys := (processedKeys g)[nat KeyEnter := True]\<rparr>"
    by (simp add: ProcessInput_win)
  show "state (ProcessInput deltaTime g) = gameMenu" by (simp add: p)
  show "paddle1Score (ProcessInput deltaTime g) = paddle1Score g" by (simp add: p)
  show "paddle2Score (ProcessInput deltaTime g) = paddle2Score g" by (simp add: p)
  show "paddle1 (ProcessInput deltaTime g) = paddle1 g" by (simp add: p)
  show "paddle2 (ProcessInput deltaTime g) = paddle2 g" by (simp add: p)
  show "ball (ProcessInput deltaTime g) = ball g" by (simp add: p)
  show "Game.particles (ProcessInput deltaTime g) = Game.particles g" by (simp add: p)
qed

lemma menu_game_facts:
  "state menu_game = gameMenu" "pressed menu_game KeyEnter"
  "width menu_game = 800" "height menu_game = 600"
  "paddle1Score menu_game = 4" "paddle2Score menu_game = 10"
  "position (paddle1 menu_game) = (10, 37)"
  by (simp_all add: menu_game_def pressed_def newGame_Init_def newGameObject_def)

text \<open>
  The theorem at the menu after a match that ended 4 to 10 with paddle 1 left at
  y = 37: Enter gives an active game at 0 to 0 with paddle 1 back at (10, 250), paddle 2
  at (770, 250) and the ball at (400, 300) with velocity (450, 300).  And at the
  finished match: Enter gives the menu with the score still 4 to 10.
\<close>

theorem confirm_resets_in_menu_only_witness:
  "state menu_game = gameMenu \<and> pressed menu_game KeyEnter \<and>
   paddle1Score menu_game = 4 \<and> paddle2Score menu_game = 10 \<and>
   position (paddle1 menu_game) = (10, 37) \<and>
   state (ProcessInput (1 / 100) menu_game) = gameActive \<and>
   paddle1Score (ProcessInput (1 / 100) menu_game) = 0 \<and>
   paddle2Score (ProcessInput (1 / 100) menu_game) = 0 \<and>
   position (paddle1 (ProcessInput (1 / 100) menu_game)) = (10, 250) \<and>
   position (paddle2 (ProcessInput (1 / 100) menu_game)) = (770, 250) \<and>
   position (ball (ProcessInput (1 / 100) menu_game)) = (400, 300) \<and>
   velocity (ball (ProcessInput (1 / 100) menu_game)) = (450, 300) \<and>
   state won_game = gameWin \<and> pressed won_game KeyEnter \<and>
   state (ProcessInput (1 / 100) won_game) = gameMenu \<and>
   paddle1Score (ProcessInput (1 / 100) won_game) = 4 \<and>
   paddle2Score (ProcessInput (1 / 100) won_game) = 10 \<and>
   ball (ProcessInput (1 / 100) won_game) = ball won_game"
proof -
  have w: "float32_of_int 800 = 800" by (simp add: float32_of_int_def)
  have i: "position (paddle1 (newGame_Init 800 600)) = (10, 250)"
    "position (paddle2 (newGame_Init 800 600)) = (770, 250)"
    by (simp_all add: newGame_Init_def newGameObject_def window_centre w paddleSize_def
          X_def Y_def)
  from confirm_resets_in_menu_only [of menu_game "1 / 100"] menu_game_facts(1,2)
  have 1: "state (ProcessInput (1 / 100) menu_game) = gameActive \<and>
   paddle1Score (ProcessInput (1 / 100) menu_game) = 0 \<and>
   paddle2Score (ProcessInput (1 / 100) menu_game) = 0 \<and>
   position (paddle1 (ProcessInput (1 / 100) menu_game)) = (10, 250) \<and>
   position (paddle2 (ProcessInput (1 / 100) menu_game)) = (770, 250) \<and>
   position (ball (ProcessInput (1 / 100) menu_game)) = (400, 300) \<and>
   velocity (ball (ProcessInput (1 / 100) menu_game)) = (450, 300)"
    by (simp add: menu_game_facts i window_centre initialBallVelocity_def)
  from confirm_resets_in_menu_only [of won_game "1 / 100"] won_game_facts(1,2)
  have 2: "state (ProcessInput (1 / 100) won_game) = gameMenu \<and>
   paddle1Score (ProcessInput (1 / 100) won_game) = 4 \<and>
   paddle2Score (ProcessInput (1 / 100) won_game) = 10 \<and>
   ball (ProcessInput (1 / 100) won_game) = ball won_game"
    by (simp add: won_game_facts)
  from 1 2 menu_game_facts won_game_facts(1,2) show ?thesis by blast
qed

section \<open>Glyph lookup\<close>

lemma rune_index_in_bounds_iff:
  fixes char :: rune
  shows "(0 \<le> sint (char - lowChar) \<and> sint (char - lowChar) < 96) = in_loaded_range char"
proof -
  have lo: "- (2 ^ 31) \<le> sint char" using sint_ge [of char] by simp
  have hi: "sint char < 2 ^ 31" using sint_lt [of char] by simp
  have s: "sint (char - lowChar) = signed_take_bit 31 (sint char - 32)"
    by (simp add: lowChar_def sint_word_ariths)
  show ?thesis
  proof (cases "- (2 ^ 31) \<le> sint char - 32")
    case True
    then have "signed_take_bit 31 (sint char - 32) = sint char - 32"
      using hi by (intro signed_take_bit_int_eq_self) simp_all
    then show ?thesis by (auto simp: s in_loaded_range_def)
  next
    case False
    then have lt: "sint char - 32 < - (2 ^ 31)" by simp
    from signed_take_bit_int_greater_eq [OF lt]
    have "sint char - 32 + 2 ^ 32 \<le> signed_take_bit 31 (sint char - 32)" by simp
    with lo have "96 \<le> signed_take_bit 31 (sint char - 32)" by simp
    moreover from lt have "\<not> 32 \<le> sint char" by simp
    ultimately show ?thesis by (simp add: s in_loaded_range_def)
  qed
qed

lemma chars_LoadFont:
  "chars (LoadFont glyph newTextRenderer) = map (\<lambda>ch. glyph (word_of_int ch)) [32..127]"
  by (simp add: LoadFont_def newTextRenderer_def)

lemma length_chars_LoadFont: "length (chars (LoadFont glyph newTextRenderer)) = 96"
  by (simp add: chars_LoadFont)

lemma lookupChar_loaded:
  assumes "in_loaded_range char"
  shows "lookupChar (LoadFont glyph newTextRenderer) char = Inr (glyph char)"
proof -
  let ?i = "sint (char - lowChar)"
  from assms rune_index_in_bounds_iff [of char] have b: "0 \<le> ?i" "?i < 96" by blast+
  from assms have r: "- (2 ^ 31) \<le> sint char - 32" "sint char - 32 < 2 ^ 31"
    by (simp_all add: in_loaded_range_def)
  have "?i = signed_take_bit 31 (sint char - 32)" by (simp add: lowChar_def sint_word_ariths)
  also have "\<dots> = sint char - 32" using r by (intro signed_take_bit_int_eq_self) simp_all
  finally have i: "?i = sint char - 32" .
  have "[32..127] ! nat ?i = 32 + int (nat ?i)"
    using b by (intro nth_upto) simp
  then have n: "[32..127] ! nat ?i = sint char" using b i by simp
  have "nat ?i < length [32..127::int]" using b by simp
  then have "map (\<lambda>ch. glyph (word_of_int ch)) [32..127] ! nat ?i = glyph (word_of_int (sint char))"
    using n by (simp only: nth_map)
  then show ?thesis using b by (simp add: lookupChar_def chars_LoadFont)
qed

lemma lookupChar_not_loaded:
  assumes "\<not> in_loaded_range char"
  shows "lookupChar (LoadFont glyph newTextRenderer) char = Inl IndexOutOfRange"
  using assms rune_index_in_bounds_iff [of char]
  by (auto simp: lookupChar_def length_chars_LoadFont)

lemma RenderText_loaded:
  "\<forall>char \<in> set indices. in_loaded_range char \<Longrightarrow>
   \<exists>qs x'. RenderText (LoadFont glyph newTextRenderer) x y scale indices = Inr (qs, x') \<and>
     length qs = length indices"
proof (induction indices arbitrary: x)
  case Nil
  then show ?case by simp
next
  case (Cons char indices)
  then have c: "in_loaded_range char" and r: "\<forall>char \<in> set indices. in_loaded_range char"
    by simp_all
  from Cons.IH [OF r, of "x + real_of_int (advance (glyph char) div 64) * scale"]
  obtain qs x' where
    "RenderText (LoadFont glyph newTextRenderer)
       (x + real_of_int (advance (glyph char) div 64) * scale) y scale indices = Inr (qs, x')"
    "length qs = length indices"
    by blast
  then show ?case by (simp add: lookupChar_loaded [OF c] Let_def)
qed

lemma RenderText_not_loaded:
  "\<exists>char \<in> set indices. \<not> in_loaded_range char \<Longrightarrow>
   RenderText (LoadFont glyph newTextRenderer) x y scale indices = Inl IndexOutOfRange"
proof (induction indices arbitrary: x)
  case Nil
  then show ?case by simp
next
  case (Cons char indices)
  show ?case
  proof (cases "in_loaded_range char")
    case False
    then show ?thesis by (simp add: lookupChar_not_loaded)
  next
    case True
    with Cons.prems have "\<exists>char \<in> set indices. \<not> in_loaded_range char" by simp
    from Cons.IH [OF this] show ?thesis
      by (simp add: lookupChar_loaded [OF True] Let_def)
  qed
qed

text \<open>
  Claim C8.  After \<open>LoadFont\<close> on a new renderer the character list has 96 entries.  A
  rune from 32 to 127 is looked up at the index rune - 32, which is at least 0 and below
  96, and the lookup gives the glyph loaded for that rune.  For any other rune the lookup
  is the index fault.  So \<open>RenderText\<close> draws one quad per rune when all runes of the
  formatted string are from 32 to 127, and ends in the index fault as soon as one is not:
  there is no replacement glyph.
\<close>

theorem RenderText_glyph_lookup:
  "length (chars (LoadFont glyph newTextRenderer)) = 96 \<and>
   (in_loaded_range char \<longrightarrow>
      0 \<le> sint (char - lowChar) \<and>
      sint (char - lowChar) < int (length (chars (LoadFont glyph newTextRenderer))) \<and>
      lookupChar (LoadFont glyph newTextRenderer) char = Inr (glyph char)) \<and>
   (\<not> in_loaded_range char \<longrightarrow>
      lookupChar (LoadFont glyph newTextRenderer) char = Inl IndexOutOfRange) \<and>
   ((\<forall>r \<in> set indices. in_loaded_range r) \<longrightarrow>
      (\<exists>qs x'. RenderText (LoadFont glyph newTextRenderer) x y scale indices = Inr (qs, x') \<and>
         length qs = length indices)) \<and>
   ((\<exists>r \<in> set indices. \<not> in_loaded_range r) \<longrightarrow>
      RenderText (LoadFont glyph newTextRenderer) x y scale indices = Inl IndexOutOfRange)"
proof (intro conjI impI)
  show "length (chars (LoadFont glyph newTextRenderer)) = 96" by (rule length_chars_LoadFont)
next
  assume a: "in_loaded_range char"
  with rune_index_in_bounds_iff [of char]
  have b: "0 \<le> sint (char - lowChar)" "sint (char - lowChar) < 96" by blast+
  from b(1) show "0 \<le> sint (char - lowChar)" .
  from b(2) show "sint (char - lowChar) < int (length (chars (LoadFont glyph newTextRenderer)))"
    by (simp add: length_chars_LoadFont)
  from a show "lookupChar (LoadFont glyph newTextRenderer) char = Inr (glyph char)"
    by (rule lookupChar_loaded)
next
  assume "\<not> in_loaded_range char"
  then show "lookupChar (LoadFont glyph newTextRenderer) char = Inl IndexOutOfRange"
    by (rule lookupChar_not_loaded)
next
  assume "\<forall>r \<in> set indices. in_loaded_range r"
  then show "\<exists>qs x'. RenderText (LoadFont glyph newTextRenderer) x y scale indices = Inr (qs, x') \<and>
         length qs = length indices"
    by (rule RenderText_loaded)
next
  assume "\<exists>r \<in> set indices. \<not> in_loaded_range r"
  then show "RenderText (LoadFont glyph newTextRenderer) x y scale indices = Inl IndexOutOfRange"
    by (rule RenderText_not_loaded)
qed

text \<open>
  The theorem at the sample font: the rune 65 (A) is loaded and its lookup gives its
  glyph; the rune 233 is not and its lookup is the index fault; the five runes
  of "7 : 3" (55, 32, 58, 32, 51) are drawn as five quads; the runes 80, 233 end in the
  index fault.
\<close>

theorem RenderText_glyph_lookup_witness:
  "in_loaded_range 65 \<and>
   lookupChar (LoadFont sample_glyph newTextRenderer) 65 = Inr (sample_glyph 65) \<and>
   \<not> in_loaded_range 233 \<and>
   lookupChar (LoadFont sample_glyph newTextRenderer) 233 = Inl IndexOutOfRange \<and>
   in_loaded_range 55 \<and> in_loaded_range 32 \<and> in_loaded_range 58 \<and> in_loaded_range 51 \<and>
   (\<exists>qs x'. RenderText (LoadFont sample_glyph newTextRenderer) 350 50 1 [55, 32, 58, 32, 51] =
      Inr (qs, x') \<and> length qs = 5) \<and>
   in_loaded_range 80 \<and>
   RenderText (LoadFont sample_glyph newTextRenderer) 290 280 (1 / 2) [80, 233] =
     Inl IndexOutOfRange"
proof -
  have i: "in_loaded_range 65" "in_loaded_range 55" "in_loaded_range 32" "in_loaded_range 58"
    "in_loaded_range 51" "in_loaded_range 80"
    by (simp_all add: in_loaded_range_def)
  have o: "\<not> in_loaded_range 233" by (simp add: in_loaded_range_def)
  have a: "\<forall>r \<in> set [55, 32, 58, 32, 51]. in_loaded_range r" using i by simp
  have e: "\<exists>r \<in> set [80, 233]. \<not> in_loaded_range r" using o by simp
  from RenderText_glyph_lookup [of sample_glyph 65 "[55, 32, 58, 32, 51]" 350 50 1] i(1) a
  have "lookupChar (LoadFont sample_glyph newTextRenderer) 65 = Inr (sample_glyph 65) \<and>
     (\<exists>qs x'. RenderText (LoadFont sample_glyph newTextRenderer) 350 50 1 [55, 32, 58, 32, 51] =
        Inr (qs, x') \<and> length qs = length [55, 32, 58, 32, 51 :: rune])"
    by blast
  then have 1: "lookupChar (LoadFont sample_glyph newTextRenderer) 65 = Inr (sample_glyph 65) \<and>
     (\<exists>qs x'. RenderText (LoadFont sample_glyph newTextRenderer) 350 50 1 [55, 32, 58, 32, 51] =
        Inr (qs, x') \<and> length qs = 5)"
    by (simp del: RenderText.simps add: eval_nat_numeral)
  from RenderText_glyph_lookup [of sample_glyph 233 "[80, 233]" 290 280 "1 / 2"] o e
  have 2: "lookupChar (LoadFont sample_glyph newTextRenderer) 233 = Inl IndexOutOfRange \<and>
     RenderText (LoadFont sample_glyph newTextRenderer) 290 280 (1 / 2) [80, 233] =
       Inl IndexOutOfRange"
    by blast
  from 1 2 i o show ?thesis by blast
qed

end
